theory Spec2Isabelle
  imports Main
begin

section \<open>Data model\<close>

text \<open>
  The repository holds two designs of the same program. \<^verbatim>\<open>main.go\<close> keeps a
  12 x 31 array indexed by calendar month and day. The other revisions of the
  file keep a 13 x 32 array indexed by the month offset from an anchor date,
  with column 0 reserved for a year-month label; they agree on \<open>fetchData\<close> and
  differ among themselves only in the literal strings of the view, of which the
  variant with vertical bars is the one modelled. Definitions that differ
  between the two designs carry the suffix \<open>_12x31\<close> or \<open>_13x32\<close>; \<open>Update\<close> is the
  same text in every revision.
\<close>

text \<open>A Go \<^verbatim>\<open>error\<close> value is represented by its message; \<^verbatim>\<open>nil\<close> is \<open>None\<close>.\<close>

type_synonym error = string

text \<open>
  The fixed arrays \<^verbatim>\<open>[numMonths][numDays]int\<close> and \<^verbatim>\<open>[12][31]int\<close>: a list of rows.
  Go zero-initialises them.
\<close>

type_synonym grid = "int list list"

definition numMonths :: nat where
  "numMonths = 13"

definition numDays :: nat where
  "numDays = 32"

definition zeroGrid :: "nat \<Rightarrow> nat \<Rightarrow> grid" where
  "zeroGrid rows cols = replicate rows (replicate cols 0)"

text \<open>
  An indexed store \<^verbatim>\<open>g[r][c] = v\<close>. Go panics when an index is out of range;
  that is the result \<open>None\<close>.
\<close>

definition setCell :: "grid \<Rightarrow> int \<Rightarrow> int \<Rightarrow> int \<Rightarrow> grid option" where
  "setCell g r c v =
     (if 0 \<le> r \<and> r < int (length g) \<and> 0 \<le> c \<and> c < int (length (g ! nat r))
      then Some (g[nat r := (g ! nat r)[nat c := v]])
      else None)"

text \<open>The part of a \<^verbatim>\<open>time.Time\<close> the program reads: \<^verbatim>\<open>Year()\<close>, \<^verbatim>\<open>Month()\<close>, \<^verbatim>\<open>Day()\<close>.\<close>

record date =
  Year :: int
  Month :: int
  Day :: int

text \<open>One element of \<^verbatim>\<open>ContributionDays\<close> in the decoded response.\<close>

record contributionDay =
  Date :: string
  ContributionCount :: int

text \<open>A week of the decoded response is its \<^verbatim>\<open>ContributionDays\<close> slice.\<close>

type_synonym week = "contributionDay list"

record fetchMsg =
  msg_contributions :: grid
  msg_err :: "error option"

record 'ti model =
  contributions :: grid
  username :: 'ti
  submittedName :: string
  err :: "error option"

text \<open>
  Messages reaching \<open>Update\<close>: a key press (by the name \<^verbatim>\<open>msg.String()\<close> gives it),
  the completion of a fetch, or any other framework message.
\<close>

datatype 'o msg = KeyMsg string | FetchMsg fetchMsg | OtherMsg 'o

text \<open>
  Commands returned by \<open>Update\<close>: \<^verbatim>\<open>bubbletea.Quit\<close>, the closure \<^verbatim>\<open>fetchData(name)\<close>,
  or a command produced by the text input component. \<^verbatim>\<open>nil\<close> is \<open>None\<close>.
\<close>

datatype 'c cmd = Quit | FetchData string | TextInputCmd 'c

text \<open>
  The text input component (\<^verbatim>\<open>textinput.Model\<close> of the bubbles library) is not part
  of the repository: its operations are parameters.
\<close>

record ('ti, 'c, 'o) textinput =
  ti_Value :: "'ti \<Rightarrow> string"
  ti_SetValue :: "string \<Rightarrow> 'ti \<Rightarrow> 'ti"
  ti_Update :: "'o msg \<Rightarrow> 'ti \<Rightarrow> 'ti \<times> 'c option"
  ti_View :: "'ti \<Rightarrow> string"

section \<open>Library functions the builder calls\<close>

subsection \<open>Decimal text\<close>

definition digitChar :: "nat \<Rightarrow> char" where
  "digitChar d = ''0123456789'' ! d"

definition isDigit :: "char \<Rightarrow> bool" where
  "isDigit c = (c \<in> set ''0123456789'')"

text \<open>The value of a digit character, as Go computes it: \<^verbatim>\<open>c - '0'\<close>.\<close>

definition digitVal :: "char \<Rightarrow> nat" where
  "digitVal c = of_char c - of_char (CHR ''0'')"

function digitsOf :: "nat \<Rightarrow> string" where
  "digitsOf n = (if n < 10 then [digitChar n] else digitsOf (n div 10) @ [digitChar (n mod 10)])"
  by pat_completeness auto
termination
  by (relation "measure id") auto

declare digitsOf.simps [simp del]

text \<open>
  \<^verbatim>\<open>appendInt(b, x, width)\<close> of package time: the decimal form of \<open>x\<close>, a minus sign
  first when negative, padded with leading zeros to \<open>width\<close> digits.
\<close>

definition appendInt :: "int \<Rightarrow> nat \<Rightarrow> string" where
  "appendInt x width =
     (let ds = digitsOf (nat \<bar>x\<bar>)
      in (if x < 0 then ''-'' else '''') @ replicate (width - length ds) (CHR ''0'') @ ds)"

text \<open>\<^verbatim>\<open>date.Format("200601")\<close>: the year on four digits, then the month on two.\<close>

definition formatYearMonth :: "date \<Rightarrow> string" where
  "formatYearMonth d = appendInt (Year d) 4 @ appendInt (Month d) 2"

definition decimalValue :: "string \<Rightarrow> nat" where
  "decimalValue ds = foldl (\<lambda>a c. a * 10 + digitVal c) 0 ds"

text \<open>
  \<^verbatim>\<open>strconv.Atoi\<close>: an optional sign, then one or more decimal digits; a syntax
  error or a value outside the 64-bit range is \<open>None\<close>.
\<close>

definition Atoi :: "string \<Rightarrow> int option" where
  "Atoi s =
     (let neg = (s \<noteq> [] \<and> hd s = CHR ''-'');
          ds = (if s \<noteq> [] \<and> (hd s = CHR ''-'' \<or> hd s = CHR ''+'') then tl s else s);
          v = (if neg then - int (decimalValue ds) else int (decimalValue ds))
      in if ds = [] \<or> \<not> list_all isDigit ds then None
         else if v < - (2 ^ 63) \<or> 2 ^ 63 - 1 < v then None
         else Some v)"

text \<open>
  \<^verbatim>\<open>fmt.Sprintf("%Nd", v)\<close>: the decimal form of \<open>v\<close>, right-justified with spaces
  to at least \<open>N\<close> characters.
\<close>

definition sprintf_d :: "nat \<Rightarrow> int \<Rightarrow> string" where
  "sprintf_d width v =
     (let s = (if v < 0 then ''-'' else '''') @ digitsOf (nat \<bar>v\<bar>)
      in replicate (width - length s) (CHR '' '') @ s)"

subsection \<open>Dates\<close>

text \<open>
  \<^verbatim>\<open>time.Parse\<close> is a parameter of the builder: a function from the date text to
  an error or a date. What the builder relies on is the range of the fields of a
  parsed date: with the layout \<^verbatim>\<open>2006-01-02\<close> the year has four digits, the month
  is a calendar month and the day a day of a month.
\<close>

type_synonym parser = "string \<Rightarrow> error + date"

definition valid_date :: "date \<Rightarrow> bool" where
  "valid_date d = (0 \<le> Year d \<and> Year d \<le> 9999 \<and> 1 \<le> Month d \<and> Month d \<le> 12
                   \<and> 1 \<le> Day d \<and> Day d \<le> 31)"

definition parser_ok :: "parser \<Rightarrow> bool" where
  "parser_ok parse = (\<forall>s d. parse s = Inr d \<longrightarrow> valid_date d)"

text \<open>
  \<^verbatim>\<open>time.Now().AddDate(-1, 0, 0)\<close>: the same month and day one year earlier. The one
  day that does not exist there, 29 February, is normalised to 1 March.
\<close>

definition startDate :: "date \<Rightarrow> date" where
  "startDate now =
     (if Month now = 2 \<and> Day now = 29
      then \<lparr>Year = Year now - 1, Month = 3, Day = 1\<rparr>
      else \<lparr>Year = Year now - 1, Month = Month now, Day = Day now\<rparr>)"

section \<open>The grid builder of fetchData\<close>

text \<open>
  One pass of a loop body ends in a panic, in a \<^verbatim>\<open>return\<close> of the enclosing
  function, or goes on to the next iteration with the array as it is now.
\<close>

datatype loop_outcome = Panic | Return fetchMsg | Continue grid

definition errMsg :: "nat \<Rightarrow> nat \<Rightarrow> error \<Rightarrow> fetchMsg" where
  "errMsg rows cols e = \<lparr>msg_contributions = zeroGrid rows cols, msg_err = Some e\<rparr>"

definition monthIndex :: "date \<Rightarrow> date \<Rightarrow> int" where
  "monthIndex start d = (Year d - Year start) * 12 + Month d - Month start"

text \<open>The body of the inner loop, 13 x 32 revisions.\<close>

definition dayStep_13x32 :: "parser \<Rightarrow> date \<Rightarrow> grid \<Rightarrow> contributionDay \<Rightarrow> loop_outcome" where
  "dayStep_13x32 parse start g day =
     (case parse (Date day) of
        Inl e \<Rightarrow> Return (errMsg numMonths numDays e)
      | Inr d \<Rightarrow>
          (case Atoi (formatYearMonth d) of
             None \<Rightarrow> Return (errMsg numMonths numDays ''strconv.Atoi'')
           | Some yearMonth \<Rightarrow>
               if monthIndex start d < 0 \<or> monthIndex start d \<ge> int numMonths
               then Continue g
               else (case setCell g (monthIndex start d) (Day d) (ContributionCount day) of
                       None \<Rightarrow> Panic
                     | Some g1 \<Rightarrow>
                         (case setCell g1 (monthIndex start d) 0 yearMonth of
                            None \<Rightarrow> Panic
                          | Some g2 \<Rightarrow> Continue g2))))"

fun daysLoop_13x32 :: "parser \<Rightarrow> date \<Rightarrow> grid \<Rightarrow> contributionDay list \<Rightarrow> loop_outcome" where
  "daysLoop_13x32 parse start g [] = Continue g"
| "daysLoop_13x32 parse start g (day # days) =
     (case dayStep_13x32 parse start g day of
        Continue g' \<Rightarrow> daysLoop_13x32 parse start g' days
      | out \<Rightarrow> out)"

fun weeksLoop_13x32 :: "parser \<Rightarrow> date \<Rightarrow> grid \<Rightarrow> week list \<Rightarrow> loop_outcome" where
  "weeksLoop_13x32 parse start g [] = Continue g"
| "weeksLoop_13x32 parse start g (w # ws) =
     (case daysLoop_13x32 parse start g w of
        Continue g' \<Rightarrow> weeksLoop_13x32 parse start g' ws
      | out \<Rightarrow> out)"

text \<open>
  The command \<^verbatim>\<open>fetchData(username)\<close> when it runs, from the point where the
  request has been sent and the body decoded: \<open>resp\<close> is the transport or decoding
  error, or the decoded weeks; \<open>now\<close> is what \<^verbatim>\<open>time.Now()\<close> returns. \<open>None\<close> is a
  panic.
\<close>

definition fetchData_13x32 :: "parser \<Rightarrow> date \<Rightarrow> error + week list \<Rightarrow> fetchMsg option" where
  "fetchData_13x32 parse now resp =
     (case resp of
        Inl e \<Rightarrow> Some (errMsg numMonths numDays e)
      | Inr weeks \<Rightarrow>
          (case weeksLoop_13x32 parse (startDate now) (zeroGrid numMonths numDays) weeks of
             Panic \<Rightarrow> None
           | Return m \<Rightarrow> Some m
           | Continue g \<Rightarrow> Some \<lparr>msg_contributions = g, msg_err = None\<rparr>))"

text \<open>The body of the inner loop, \<^verbatim>\<open>main.go\<close>: no anchor, no label, no window test.\<close>

definition dayStep_12x31 :: "parser \<Rightarrow> grid \<Rightarrow> contributionDay \<Rightarrow> loop_outcome" where
  "dayStep_12x31 parse g day =
     (case parse (Date day) of
        Inl e \<Rightarrow> Return (errMsg 12 31 e)
      | Inr d \<Rightarrow>
          (case setCell g (Month d - 1) (Day d - 1) (ContributionCount day) of
             None \<Rightarrow> Panic
           | Some g1 \<Rightarrow> Continue g1))"

fun daysLoop_12x31 :: "parser \<Rightarrow> grid \<Rightarrow> contributionDay list \<Rightarrow> loop_outcome" where
  "daysLoop_12x31 parse g [] = Continue g"
| "daysLoop_12x31 parse g (day # days) =
     (case dayStep_12x31 parse g day of
        Continue g' \<Rightarrow> daysLoop_12x31 parse g' days
      | out \<Rightarrow> out)"

fun weeksLoop_12x31 :: "parser \<Rightarrow> grid \<Rightarrow> week list \<Rightarrow> loop_outcome" where
  "weeksLoop_12x31 parse g [] = Continue g"
| "weeksLoop_12x31 parse g (w # ws) =
     (case daysLoop_12x31 parse g w of
        Continue g' \<Rightarrow> weeksLoop_12x31 parse g' ws
      | out \<Rightarrow> out)"

definition fetchData_12x31 :: "parser \<Rightarrow> error + week list \<Rightarrow> fetchMsg option" where
  "fetchData_12x31 parse resp =
     (case resp of
        Inl e \<Rightarrow> Some (errMsg 12 31 e)
      | Inr weeks \<Rightarrow>
          (case weeksLoop_12x31 parse (zeroGrid 12 31) weeks of
             Panic \<Rightarrow> None
           | Return m \<Rightarrow> Some m
           | Continue g \<Rightarrow> Some \<lparr>msg_contributions = g, msg_err = None\<rparr>))"

section \<open>The state machine\<close>

text \<open>
  \<open>initialModel\<close>: the configured, focused text input \<open>ti\<close>; every other field has
  its zero value.
\<close>

definition initialModel_13x32 :: "'ti \<Rightarrow> 'ti model" where
  "initialModel_13x32 ti =
     \<lparr>contributions = zeroGrid numMonths numDays, username = ti, submittedName = '''', err = None\<rparr>"

definition initialModel_12x31 :: "'ti \<Rightarrow> 'ti model" where
  "initialModel_12x31 ti =
     \<lparr>contributions = zeroGrid 12 31, username = ti, submittedName = '''', err = None\<rparr>"

text \<open>The last two statements of \<open>Update\<close>, reached when no case returned.\<close>

definition forwardToInput ::
  "('ti, 'c, 'o) textinput \<Rightarrow> 'ti model \<Rightarrow> 'o msg \<Rightarrow> 'ti model \<times> 'c cmd option" where
  "forwardToInput ops m msg =
     (case ti_Update ops msg (username m) of
        (ti, c) \<Rightarrow> (m\<lparr>username := ti\<rparr>, map_option TextInputCmd c))"

definition Update ::
  "('ti, 'c, 'o) textinput \<Rightarrow> 'ti model \<Rightarrow> 'o msg \<Rightarrow> 'ti model \<times> 'c cmd option" where
  "Update ops m msg =
     (case msg of
        KeyMsg k \<Rightarrow>
          if k = ''ctrl+c'' \<or> k = ''esc'' then (m, Some Quit)
          else if k = ''enter'' \<and> ti_Value ops (username m) \<noteq> ''''
          then (let m1 = m\<lparr>submittedName := ti_Value ops (username m)\<rparr>;
                    m2 = m1\<lparr>username := ti_SetValue ops '''' (username m1)\<rparr>
                in (m2, Some (FetchData (submittedName m2))))
          else forwardToInput ops m msg
      | FetchMsg fm \<Rightarrow>
          (case msg_err fm of
             Some e \<Rightarrow> (m\<lparr>err := Some e\<rparr>, None)
           | None \<Rightarrow> forwardToInput ops (m\<lparr>contributions := msg_contributions fm\<rparr>) msg)
      | OtherMsg x \<Rightarrow> forwardToInput ops m msg)"

section \<open>The view\<close>

text \<open>The three lipgloss styles; \<^verbatim>\<open>Render\<close> of each is a parameter.\<close>

record styles =
  darkGrey :: "string \<Rightarrow> string"
  lightGrey :: "string \<Rightarrow> string"
  contributionColor :: "string \<Rightarrow> string"

definition nl :: string where
  "nl = [CHR 0x0A]"

text \<open>The ballot mark printed for an empty cell, as its three UTF-8 bytes.\<close>

definition ballotX :: string where
  "ballotX = [CHR 0xE2, CHR 0x9C, CHR 0x97]"

text \<open>One cell of the table, 13 x 32 revision: column \<open>day\<close>, stored value \<open>v\<close>.\<close>

definition viewCell_13x32 :: "styles \<Rightarrow> nat \<Rightarrow> int \<Rightarrow> string" where
  "viewCell_13x32 st day v =
     (if day > 0
      then (if v \<noteq> 0
            then darkGrey st '''' @ contributionColor st (sprintf_d 2 v) @ darkGrey st ''| ''
            else darkGrey st ('' '' @ ballotX @ ''| ''))
      else (if v \<noteq> 0
            then ''|'' @ lightGrey st (sprintf_d 6 v) @ ''| ''
            else ''|      | ''))"

definition viewRow_13x32 :: "styles \<Rightarrow> int list \<Rightarrow> string" where
  "viewRow_13x32 st row =
     concat (map (\<lambda>day. viewCell_13x32 st day (row ! day)) [0..<numDays]) @ nl"

definition viewHeader_13x32 :: "styles \<Rightarrow> string" where
  "viewHeader_13x32 st =
     concat (map (\<lambda>day. if day = 0 then darkGrey st ''|      | ''
                         else lightGrey st (sprintf_d 2 (int day) @ ''| '')) [0..<numDays]) @ nl"

text \<open>What \<open>View\<close> builds when no error is recorded: the title, the input, the table.\<close>

definition viewTable_13x32 :: "('ti, 'c, 'o) textinput \<Rightarrow> styles \<Rightarrow> 'ti model \<Rightarrow> string" where
  "viewTable_13x32 ops st m =
     ''GitHub Contributions'' @ nl @ nl @ ti_View ops (username m) @ nl @ nl
     @ ''(ctrl+c to escape)'' @ nl @ nl
     @ ''Contributions for : '' @ contributionColor st (submittedName m @ nl @ nl) @ nl
     @ viewHeader_13x32 st
     @ concat (map (\<lambda>month. viewRow_13x32 st (contributions m ! month)) [0..<numMonths])"

definition View_13x32 :: "('ti, 'c, 'o) textinput \<Rightarrow> styles \<Rightarrow> 'ti model \<Rightarrow> string" where
  "View_13x32 ops st m =
     (case err m of
        Some e \<Rightarrow> ''Error: '' @ e @ nl
      | None \<Rightarrow> viewTable_13x32 ops st m)"

text \<open>The same for \<^verbatim>\<open>main.go\<close>, which has neither styles nor a header row.\<close>

definition viewCell_12x31 :: "int \<Rightarrow> string" where
  "viewCell_12x31 v = (if v \<noteq> 0 then ''['' @ sprintf_d 2 v @ ''] '' else ''[  ] '')"

definition viewRow_12x31 :: "int list \<Rightarrow> string" where
  "viewRow_12x31 row = concat (map (\<lambda>day. viewCell_12x31 (row ! day)) [0..<31]) @ nl"

definition viewTable_12x31 :: "('ti, 'c, 'o) textinput \<Rightarrow> 'ti model \<Rightarrow> string" where
  "viewTable_12x31 ops m =
     ''Github Contributuions'' @ nl @ nl @ ti_View ops (username m) @ nl @ nl
     @ ''(ctrl+c to escape)'' @ nl @ nl @ nl @ nl
     @ ''Contributions: '' @ submittedName m @ nl
     @ concat (map (\<lambda>month. viewRow_12x31 (contributions m ! month)) [0..<12])"

definition View_12x31 :: "('ti, 'c, 'o) textinput \<Rightarrow> 'ti model \<Rightarrow> string" where
  "View_12x31 ops m =
     (case err m of
        Some e \<Rightarrow> ''Error: '' @ e @ nl
      | None \<Rightarrow> viewTable_12x31 ops m)"

section \<open>Concrete instances of the parameters\<close>

text \<open>
  A date parser for the layout \<^verbatim>\<open>2006-01-02\<close>: four digits, a hyphen, two digits, a
  hyphen, two digits, nothing else; the month in 1..12 and the day within the
  month. It instantiates the parameter \<open>parse\<close> where a concrete run is evaluated.
\<close>

definition isLeap :: "int \<Rightarrow> bool" where
  "isLeap y = (y mod 4 = 0 \<and> (y mod 100 \<noteq> 0 \<or> y mod 400 = 0))"

definition daysIn :: "int \<Rightarrow> int \<Rightarrow> int" where
  "daysIn m y =
     (if m = 2 then (if isLeap y then 29 else 28)
      else if m = 4 \<or> m = 6 \<or> m = 9 \<or> m = 11 then 30 else 31)"

definition parseDate :: parser where
  "parseDate s =
     (if length s = 10 \<and> list_all isDigit (take 4 s) \<and> s ! 4 = CHR ''-''
         \<and> list_all isDigit (take 2 (drop 5 s)) \<and> s ! 7 = CHR ''-''
         \<and> list_all isDigit (drop 8 s)
      then (let y = int (decimalValue (take 4 s));
                m = int (decimalValue (take 2 (drop 5 s)));
                d = int (decimalValue (drop 8 s))
            in if m < 1 \<or> 12 < m then Inl ''parsing time: month out of range''
               else if d < 1 \<or> daysIn m y < d then Inl ''parsing time: day out of range''
               else Inr \<lparr>Year = y, Month = m, Day = d\<rparr>)
      else Inl ''parsing time: cannot parse'')"

text \<open>
  A text input whose state is the text itself: a key of one character is
  appended, every other message leaves it alone, and it issues no command.
\<close>

definition plainInput :: "(string, unit, unit) textinput" where
  "plainInput =
     \<lparr>ti_Value = (\<lambda>t. t),
      ti_SetValue = (\<lambda>s t. s),
      ti_Update = (\<lambda>msg t. case msg of
                     KeyMsg k \<Rightarrow> if length k = 1 then (t @ k, None) else (t, None)
                   | _ \<Rightarrow> (t, None)),
      ti_View = (\<lambda>t. ''> '' @ t)\<rparr>"

text \<open>The program as it starts, with that text input, empty.\<close>

definition plainModel :: "string model" where
  "plainModel = initialModel_13x32 []"

definition plainStyles :: styles where
  "plainStyles = \<lparr>darkGrey = (\<lambda>s. s), lightGrey = (\<lambda>s. s), contributionColor = (\<lambda>s. s)\<rparr>"

definition day_of :: "string \<Rightarrow> int \<Rightarrow> contributionDay" where
  "day_of s c = \<lparr>Date = s, ContributionCount = c\<rparr>"

section \<open>Shape of the arrays\<close>

text \<open>A list of rows has the shape of a \<^verbatim>\<open>[rows][cols]int\<close>.\<close>

definition wf_grid :: "nat \<Rightarrow> nat \<Rightarrow> grid \<Rightarrow> bool" where
  "wf_grid rows cols g = (length g = rows \<and> list_all (\<lambda>row. length row = cols) g)"

text \<open>
  Reading a stored label as the view prints it, a decimal number: the digits
  before the last two are the year, the last two the month.
\<close>

definition decodeYearMonth :: "int \<Rightarrow> int \<times> int" where
  "decodeYearMonth v = (v div 100, v mod 100)"

text \<open>The event loop: the messages of a session, folded through \<open>Update\<close>.\<close>

definition run :: "('ti, 'c, 'o) textinput \<Rightarrow> 'ti model \<Rightarrow> 'o msg list \<Rightarrow> 'ti model" where
  "run ops m msgs = foldl (\<lambda>m msg. fst (Update ops m msg)) m msgs"

section \<open>Decimal text: what Atoi reads back from Format\<close>

lemma digit_cases: "d < 10 \<Longrightarrow> d = 0 \<or> d = 1 \<or> d = 2 \<or> d = 3 \<or> d = 4 \<or> d = 5 \<or> d = 6 \<or> d = 7 \<or> d = 8 \<or> d = (9::nat)"
  by arith

lemma digitVal_digitChar: "d < 10 \<Longrightarrow> digitVal (digitChar d) = d"
  using digit_cases [of d] by (auto simp: digitChar_def digitVal_def)

lemma isDigit_digitChar: "d < 10 \<Longrightarrow> isDigit (digitChar d)"
  using digit_cases [of d] by (auto simp: digitChar_def isDigit_def)

lemma digitsOf_nonempty: "digitsOf n \<noteq> []"
  by (subst digitsOf.simps) simp

lemma digitsOf_all_digits: "list_all isDigit (digitsOf n)"
proof (induction n rule: digitsOf.induct)
  case (1 n)
  show ?case
  proof (cases "n < 10")
    case True
    then show ?thesis by (subst digitsOf.simps) (simp add: isDigit_digitChar)
  next
    case False
    with 1 show ?thesis by (subst digitsOf.simps) (simp add: isDigit_digitChar)
  qed
qed

lemma foldl_digitsOf:
  "foldl (\<lambda>a c. a * 10 + digitVal c) a (digitsOf n) = a * 10 ^ length (digitsOf n) + n"
proof (induction n arbitrary: a rule: digitsOf.induct)
  case (1 n)
  show ?case
  proof (cases "n < 10")
    case True
    then show ?thesis by (subst (1 2) digitsOf.simps) (simp add: digitVal_digitChar)
  next
    case False
    then have "foldl (\<lambda>a c. a * 10 + digitVal c) a (digitsOf (n div 10)) =
               a * 10 ^ length (digitsOf (n div 10)) + n div 10"
      using 1 by simp
    with False show ?thesis
      by (subst (1 2) digitsOf.simps) (simp add: digitVal_digitChar algebra_simps)
  qed
qed

lemma length_digitsOf_le: "0 < k \<Longrightarrow> n < 10 ^ k \<Longrightarrow> length (digitsOf n) \<le> k"
proof (induction n arbitrary: k rule: digitsOf.induct)
  case (1 n)
  show ?case
  proof (cases "n < 10")
    case True
    with 1(2) show ?thesis by (subst digitsOf.simps) simp
  next
    case False
    from False 1(2,3) have k2: "1 < k" by (cases "k = 1") auto
    then obtain j where j: "k = Suc j" "0 < j" by (cases k) auto
    with 1(3) have "n div 10 < 10 ^ j" by (simp add: less_mult_imp_div_less mult.commute)
    with 1(1) [OF False j(2)] have "length (digitsOf (n div 10)) \<le> j" by simp
    with False j show ?thesis by (subst digitsOf.simps) simp
  qed
qed

lemma foldl_zeros:
  "foldl (\<lambda>a c. a * 10 + digitVal c) a (replicate k (CHR ''0'')) = a * 10 ^ k"
  by (induction k arbitrary: a) (simp_all add: digitVal_def)

lemma decimalValue_appendInt:
  assumes "0 \<le> x"
  shows "foldl (\<lambda>a c. a * 10 + digitVal c) a (appendInt x w)
         = a * 10 ^ max w (length (digitsOf (nat x))) + nat x"
proof -
  have "max w (length (digitsOf (nat x))) = (w - length (digitsOf (nat x))) + length (digitsOf (nat x))"
    by simp
  then show ?thesis
    using assms by (simp add: appendInt_def Let_def foldl_zeros foldl_digitsOf power_add del: max.absorb1 max.absorb2 max.absorb3 max.absorb4)
qed

lemma appendInt_all_digits: "0 \<le> x \<Longrightarrow> list_all isDigit (appendInt x w)"
proof -
  have "list_all isDigit (replicate k (CHR ''0''))" for k
    by (induction k) (simp_all add: isDigit_def)
  then show "0 \<le> x \<Longrightarrow> list_all isDigit (appendInt x w)"
    by (simp add: appendInt_def Let_def digitsOf_all_digits)
qed

lemma appendInt_nonempty: "appendInt x w \<noteq> []"
  by (simp add: appendInt_def Let_def digitsOf_nonempty)

lemma isDigit_not_sign: "isDigit c \<Longrightarrow> c \<noteq> CHR ''-'' \<and> c \<noteq> CHR ''+''"
  by (auto simp: isDigit_def)

lemma Atoi_formatYearMonth:
  assumes "valid_date d"
  shows "Atoi (formatYearMonth d) = Some (Year d * 100 + Month d)"
proof -
  let ?s = "formatYearMonth d"
  from assms have y: "0 \<le> Year d" "Year d \<le> 9999" and m: "1 \<le> Month d" "Month d \<le> 12"
    by (simp_all add: valid_date_def)
  have digits: "list_all isDigit ?s"
    using y m by (simp add: formatYearMonth_def appendInt_all_digits)
  have ne: "?s \<noteq> []"
    by (simp add: formatYearMonth_def appendInt_nonempty)
  then have "isDigit (hd ?s)" using digits by (cases ?s) simp_all
  then have hd: "hd ?s \<noteq> CHR ''-''" "hd ?s \<noteq> CHR ''+''"
    using isDigit_not_sign by blast+
  have "nat (Month d) < 10 ^ 2" using m by simp
  then have "length (digitsOf (nat (Month d))) \<le> 2"
    by (intro length_digitsOf_le) simp_all
  then have mx: "max 2 (length (digitsOf (nat (Month d)))) = 2" by simp
  have "decimalValue ?s = nat (Year d) * 100 + nat (Month d)"
    using y m by (simp add: decimalValue_def formatYearMonth_def decimalValue_appendInt mx)
  then have v: "int (decimalValue ?s) = Year d * 100 + Month d"
    using y m by simp
  show ?thesis
    using y m by (simp add: Atoi_def Let_def hd ne digits v)
qed

section \<open>The builder keeps the shape of the array\<close>

lemma wf_zeroGrid: "wf_grid rows cols (zeroGrid rows cols)"
  by (simp add: wf_grid_def zeroGrid_def list_all_iff)

lemma wf_row: "wf_grid rows cols g \<Longrightarrow> r < rows \<Longrightarrow> length (g ! r) = cols"
  by (simp add: wf_grid_def list_all_length)

lemma setCell_Some:
  "wf_grid rows cols g \<Longrightarrow> 0 \<le> r \<Longrightarrow> r < int rows \<Longrightarrow> 0 \<le> c \<Longrightarrow> c < int cols \<Longrightarrow>
   setCell g r c v = Some (g[nat r := (g ! nat r)[nat c := v]])"
  by (simp add: setCell_def wf_grid_def list_all_length)

lemma wf_setCell:
  "wf_grid rows cols g \<Longrightarrow> setCell g r c v = Some g' \<Longrightarrow> wf_grid rows cols g'"
  by (auto simp: setCell_def wf_grid_def list_all_length nth_list_update split: if_splits)

lemma dayStep_13x32_error:
  "parse (Date day) = Inl e \<Longrightarrow>
   dayStep_13x32 parse start g day = Return (errMsg numMonths numDays e)"
  by (simp add: dayStep_13x32_def)

lemma dayStep_13x32_outside:
  "parse (Date day) = Inr d \<Longrightarrow> valid_date d \<Longrightarrow>
   monthIndex start d < 0 \<or> int numMonths \<le> monthIndex start d \<Longrightarrow>
   dayStep_13x32 parse start g day = Continue g"
  by (auto simp: dayStep_13x32_def Atoi_formatYearMonth)

lemma dayStep_13x32_inside:
  assumes "parse (Date day) = Inr d" and "valid_date d" and "wf_grid numMonths numDays g"
    and "0 \<le> monthIndex start d" and "monthIndex start d < int numMonths"
  shows "dayStep_13x32 parse start g day =
         Continue (g[nat (monthIndex start d) :=
                     ((g ! nat (monthIndex start d))[nat (Day d) := ContributionCount day])
                       [0 := Year d * 100 + Month d]])"
proof -
  let ?i = "monthIndex start d"
  let ?g1 = "g[nat ?i := (g ! nat ?i)[nat (Day d) := ContributionCount day]]"
  from assms(2) have day: "0 \<le> Day d" "Day d < int numDays"
    by (simp_all add: valid_date_def numDays_def)
  have s1: "setCell g ?i (Day d) (ContributionCount day) = Some ?g1"
    using assms(3-5) day by (rule setCell_Some)
  then have wf1: "wf_grid numMonths numDays ?g1"
    using assms(3) wf_setCell by blast
  have "setCell ?g1 ?i 0 (Year d * 100 + Month d)
        = Some (?g1[nat ?i := (?g1 ! nat ?i)[nat 0 := Year d * 100 + Month d]])"
    using wf1 assms(4,5) by (rule setCell_Some) (simp_all add: numDays_def)
  moreover have "nat ?i < length g"
    using assms(3-5) by (simp add: wf_grid_def)
  ultimately have s2: "setCell ?g1 ?i 0 (Year d * 100 + Month d)
        = Some (g[nat ?i := ((g ! nat ?i)[nat (Day d) := ContributionCount day])
                              [0 := Year d * 100 + Month d]])"
    by simp
  show ?thesis
    using assms(1,2,4,5) by (simp add: dayStep_13x32_def Atoi_formatYearMonth s1 s2)
qed

lemma dayStep_13x32_wf:
  assumes "parser_ok parse" and "wf_grid numMonths numDays g"
  shows "dayStep_13x32 parse start g day \<noteq> Panic \<and>
         (\<forall>g'. dayStep_13x32 parse start g day = Continue g' \<longrightarrow> wf_grid numMonths numDays g')
         \<and> (\<forall>m. dayStep_13x32 parse start g day = Return m \<longrightarrow> (\<exists>e. m = errMsg numMonths numDays e))"
proof (cases "parse (Date day)")
  case (Inl e)
  then show ?thesis by (auto simp: dayStep_13x32_error)
next
  case (Inr d)
  with assms(1) have v: "valid_date d" by (simp add: parser_ok_def)
  show ?thesis
  proof (cases "monthIndex start d < 0 \<or> int numMonths \<le> monthIndex start d")
    case True
    with Inr v assms(2) show ?thesis by (simp add: dayStep_13x32_outside)
  next
    case False
    then have in_w: "0 \<le> monthIndex start d" "monthIndex start d < int numMonths" by auto
    note inside = dayStep_13x32_inside [of parse day d g start, OF Inr v assms(2) in_w]
    have "wf_grid numMonths numDays g'" if "dayStep_13x32 parse start g day = Continue g'" for g'
      using that assms(2) in_w
      by (auto simp: inside wf_grid_def list_all_length nth_list_update)
    then show ?thesis
      by (simp add: inside)
  qed
qed

lemma daysLoop_13x32_wf:
  assumes "parser_ok parse"
  shows "wf_grid numMonths numDays g \<Longrightarrow>
         daysLoop_13x32 parse start g days \<noteq> Panic \<and>
         (\<forall>g'. daysLoop_13x32 parse start g days = Continue g' \<longrightarrow> wf_grid numMonths numDays g')
         \<and> (\<forall>m. daysLoop_13x32 parse start g days = Return m \<longrightarrow> (\<exists>e. m = errMsg numMonths numDays e))"
proof (induction days arbitrary: g)
  case Nil
  then show ?case by simp
next
  case (Cons day days)
  note step = dayStep_13x32_wf [OF assms Cons.prems, of start day]
  show ?case
  proof (cases "dayStep_13x32 parse start g day")
    case Panic
    with step show ?thesis by simp
  next
    case (Return m)
    with step show ?thesis by simp
  next
    case (Continue g1)
    with step have "wf_grid numMonths numDays g1" by simp
    from Cons.IH [OF this] Continue show ?thesis by simp
  qed
qed

lemma daysLoop_13x32_append:
  "daysLoop_13x32 parse start g (xs @ ys) =
     (case daysLoop_13x32 parse start g xs of
        Continue g' \<Rightarrow> daysLoop_13x32 parse start g' ys
      | out \<Rightarrow> out)"
  by (induction xs arbitrary: g) (simp_all split: loop_outcome.splits)

lemma weeksLoop_13x32_concat:
  "weeksLoop_13x32 parse start g ws = daysLoop_13x32 parse start g (concat ws)"
  by (induction ws arbitrary: g) (simp_all add: daysLoop_13x32_append split: loop_outcome.splits)

lemma dayStep_12x31_error:
  "parse (Date day) = Inl e \<Longrightarrow> dayStep_12x31 parse g day = Return (errMsg 12 31 e)"
  by (simp add: dayStep_12x31_def)

lemma dayStep_12x31_store:
  assumes "parse (Date day) = Inr d" and "valid_date d" and "wf_grid 12 31 g"
  shows "dayStep_12x31 parse g day =
         Continue (g[nat (Month d - 1) := (g ! nat (Month d - 1))[nat (Day d - 1) := ContributionCount day]])"
proof -
  from assms(2) have "0 \<le> Month d - 1" "Month d - 1 < int 12" "0 \<le> Day d - 1" "Day d - 1 < int 31"
    by (simp_all add: valid_date_def)
  with assms(3) have "setCell g (Month d - 1) (Day d - 1) (ContributionCount day) =
      Some (g[nat (Month d - 1) := (g ! nat (Month d - 1))[nat (Day d - 1) := ContributionCount day]])"
    by (rule setCell_Some)
  with assms(1) show ?thesis by (simp add: dayStep_12x31_def)
qed

lemma dayStep_12x31_wf:
  assumes "parser_ok parse" and "wf_grid 12 31 g"
  shows "dayStep_12x31 parse g day \<noteq> Panic \<and>
         (\<forall>g'. dayStep_12x31 parse g day = Continue g' \<longrightarrow> wf_grid 12 31 g')
         \<and> (\<forall>m. dayStep_12x31 parse g day = Return m \<longrightarrow> (\<exists>e. m = errMsg 12 31 e))"
proof (cases "parse (Date day)")
  case (Inl e)
  then show ?thesis by (auto simp: dayStep_12x31_error)
next
  case (Inr d)
  with assms(1) have v: "valid_date d" by (simp add: parser_ok_def)
  note store = dayStep_12x31_store [of parse day d g, OF Inr v assms(2)]
  have "wf_grid 12 31 g'" if "dayStep_12x31 parse g day = Continue g'" for g'
    using that Inr wf_setCell [OF assms(2)]
    by (auto simp: dayStep_12x31_def split: option.splits)
  then show ?thesis by (simp add: store)
qed

lemma daysLoop_12x31_wf:
  assumes "parser_ok parse"
  shows "wf_grid 12 31 g \<Longrightarrow>
         daysLoop_12x31 parse g days \<noteq> Panic \<and>
         (\<forall>g'. daysLoop_12x31 parse g days = Continue g' \<longrightarrow> wf_grid 12 31 g')
         \<and> (\<forall>m. daysLoop_12x31 parse g days = Return m \<longrightarrow> (\<exists>e. m = errMsg 12 31 e))"
proof (induction days arbitrary: g)
  case Nil
  then show ?case by simp
next
  case (Cons day days)
  note step = dayStep_12x31_wf [OF assms Cons.prems, of day]
  show ?case
  proof (cases "dayStep_12x31 parse g day")
    case Panic
    with step show ?thesis by simp
  next
    case (Return m)
    with step show ?thesis by simp
  next
    case (Continue g1)
    with step have "wf_grid 12 31 g1" by simp
    from Cons.IH [OF this] Continue show ?thesis by simp
  qed
qed

lemma daysLoop_12x31_append:
  "daysLoop_12x31 parse g (xs @ ys) =
     (case daysLoop_12x31 parse g xs of
        Continue g' \<Rightarrow> daysLoop_12x31 parse g' ys
      | out \<Rightarrow> out)"
  by (induction xs arbitrary: g) (simp_all split: loop_outcome.splits)

lemma weeksLoop_12x31_concat:
  "weeksLoop_12x31 parse g ws = daysLoop_12x31 parse g (concat ws)"
  by (induction ws arbitrary: g) (simp_all add: daysLoop_12x31_append split: loop_outcome.splits)

section \<open>The concrete parser returns calendar dates\<close>

lemma digitVal_le: "isDigit c \<Longrightarrow> digitVal c \<le> 9"
  by (auto simp: isDigit_def digitVal_def)

lemma foldl_decimal_bound:
  "list_all isDigit ds \<Longrightarrow>
   foldl (\<lambda>a c. a * 10 + digitVal c) a ds < (a + 1) * 10 ^ length ds"
proof (induction ds arbitrary: a)
  case Nil
  show ?case by simp
next
  case (Cons c cs)
  then have c: "digitVal c \<le> 9" and cs: "list_all isDigit cs"
    by (simp_all add: digitVal_le)
  have "foldl (\<lambda>a c. a * 10 + digitVal c) (a * 10 + digitVal c) cs
        < (a * 10 + digitVal c + 1) * 10 ^ length cs"
    using cs by (rule Cons.IH)
  also have "\<dots> \<le> (a * 10 + 10) * 10 ^ length cs"
    using c by (intro mult_right_mono) simp_all
  finally show ?case by (simp add: algebra_simps)
qed

lemma decimalValue_bound: "list_all isDigit ds \<Longrightarrow> decimalValue ds < 10 ^ length ds"
  using foldl_decimal_bound [of ds 0] by (simp add: decimalValue_def)

lemma daysIn_le: "daysIn m y \<le> 31"
  by (simp add: daysIn_def)

lemma parser_ok_parseDate: "parser_ok parseDate"
  unfolding parser_ok_def
proof (intro allI impI)
  fix s d
  assume p: "parseDate s = Inr d"
  then have len: "length s = 10" and dg: "list_all isDigit (take 4 s)"
    by (simp_all add: parseDate_def split: if_splits)
  have "decimalValue (take 4 s) < 10 ^ length (take 4 s)"
    using dg by (rule decimalValue_bound)
  with len have y: "int (decimalValue (take 4 s)) \<le> 9999" by simp
  from p len have "Year d = int (decimalValue (take 4 s))"
    and "1 \<le> Month d" and "Month d \<le> 12" and "1 \<le> Day d"
    and "Day d \<le> daysIn (Month d) (Year d)"
    by (auto simp: parseDate_def Let_def split: if_splits)
  with y daysIn_le [of "Month d" "Year d"] show "valid_date d"
    by (simp add: valid_date_def)
qed

lemma parse_2023_05_25:
  "parseDate ''2023-05-25'' = Inr \<lparr>Year = 2023, Month = 5, Day = 25\<rparr>"
  by (simp add: parseDate_def isDigit_def decimalValue_def digitVal_def daysIn_def)

lemma parse_2022_01_01:
  "parseDate ''2022-01-01'' = Inr \<lparr>Year = 2022, Month = 1, Day = 1\<rparr>"
  by (simp add: parseDate_def isDigit_def decimalValue_def digitVal_def daysIn_def)

lemma parse_malformed:
  "parseDate ''2023-5-25'' = Inl ''parsing time: cannot parse''"
  by (simp add: parseDate_def)

lemma valid_2023_05_25: "valid_date \<lparr>Year = 2023, Month = 5, Day = 25\<rparr>"
  by (simp add: valid_date_def)

lemma valid_2022_01_01: "valid_date \<lparr>Year = 2022, Month = 1, Day = 1\<rparr>"
  by (simp add: valid_date_def)

section \<open>A response of one sample; the fresh array\<close>

lemma fetch_12x31_one:
  "fetchData_12x31 parse (Inr [[day]]) =
     (case dayStep_12x31 parse (zeroGrid 12 31) day of
        Panic \<Rightarrow> None | Return m \<Rightarrow> Some m
      | Continue g \<Rightarrow> Some \<lparr>msg_contributions = g, msg_err = None\<rparr>)"
  by (simp add: fetchData_12x31_def split: loop_outcome.splits)

lemma fetch_13x32_one:
  "fetchData_13x32 parse now (Inr [[day]]) =
     (case dayStep_13x32 parse (startDate now) (zeroGrid numMonths numDays) day of
        Panic \<Rightarrow> None | Return m \<Rightarrow> Some m
      | Continue g \<Rightarrow> Some \<lparr>msg_contributions = g, msg_err = None\<rparr>)"
  by (simp add: fetchData_13x32_def split: loop_outcome.splits)

lemma zeroGrid_nth: "r < rows \<Longrightarrow> c < cols \<Longrightarrow> zeroGrid rows cols ! r ! c = 0"
  by (simp add: zeroGrid_def)

lemma zeroGrid_row: "r < rows \<Longrightarrow> zeroGrid rows cols ! r = replicate cols 0"
  by (simp add: zeroGrid_def)

lemma length_zeroGrid: "length (zeroGrid rows cols) = rows"
  by (simp add: zeroGrid_def)

lemma parse_day_of: "parse s = r \<Longrightarrow> parse (Date (day_of s c)) = r"
  by (simp add: day_of_def)

section \<open>The builder reads the anchor's year and month only\<close>

lemma dayStep_13x32_anchor:
  "Year s1 = Year s2 \<Longrightarrow> Month s1 = Month s2 \<Longrightarrow>
   dayStep_13x32 parse s1 g day = dayStep_13x32 parse s2 g day"
  by (simp add: dayStep_13x32_def monthIndex_def split: sum.splits option.splits)

lemma daysLoop_13x32_anchor:
  "Year s1 = Year s2 \<Longrightarrow> Month s1 = Month s2 \<Longrightarrow>
   daysLoop_13x32 parse s1 g days = daysLoop_13x32 parse s2 g days"
  by (induction days arbitrary: g)
     (simp_all add: dayStep_13x32_anchor [of s1 s2] split: loop_outcome.splits)

section \<open>The label in column 0\<close>

lemma same_row_same_month:
  assumes "valid_date d" and "valid_date d'" and "monthIndex start d = monthIndex start d'"
  shows "Year d = Year d' \<and> Month d = Month d'"
proof -
  from assms(3) have e: "(Year d - Year d') * 12 = Month d' - Month d"
    by (simp add: monthIndex_def algebra_simps)
  from assms(1,2) have "- 12 < Month d' - Month d" "Month d' - Month d < 12"
    by (simp_all add: valid_date_def)
  with e have "Year d - Year d' = 0" by arith
  with e show ?thesis by simp
qed

lemma label_step:
  assumes "parser_ok parse" and "wf_grid numMonths numDays g" and "valid_date d"
    and "0 \<le> monthIndex start d" and "monthIndex start d < int numMonths"
    and "g ! nat (monthIndex start d) ! 0 = Year d * 100 + Month d"
    and "dayStep_13x32 parse start g day = Continue g'"
  shows "g' ! nat (monthIndex start d) ! 0 = Year d * 100 + Month d"
proof (cases "parse (Date day)")
  case (Inl e)
  with assms(7) show ?thesis by (simp add: dayStep_13x32_error)
next
  case (Inr d')
  with assms(1) have v: "valid_date d'" by (simp add: parser_ok_def)
  show ?thesis
  proof (cases "monthIndex start d' < 0 \<or> int numMonths \<le> monthIndex start d'")
    case True
    from dayStep_13x32_outside [of parse day d' start g, OF Inr v True] assms(6,7)
    show ?thesis by simp
  next
    case False
    then have in_w: "0 \<le> monthIndex start d'" "monthIndex start d' < int numMonths" by auto
    note inside = dayStep_13x32_inside [of parse day d' g start, OF Inr v assms(2) in_w]
    have len: "length g = numMonths" using assms(2) by (simp add: wf_grid_def)
    show ?thesis
    proof (cases "monthIndex start d' = monthIndex start d")
      case True
      then have "Year d' = Year d \<and> Month d' = Month d"
        using same_row_same_month [OF v assms(3)] by simp
      moreover have "0 < length (g ! nat (monthIndex start d))"
        using wf_row [OF assms(2), of "nat (monthIndex start d)"] assms(4,5)
        by (simp add: numDays_def)
      moreover from assms(7) have "g' = g[nat (monthIndex start d') :=
            ((g ! nat (monthIndex start d'))[nat (Day d') := ContributionCount day])
              [0 := Year d' * 100 + Month d']]"
        by (simp add: inside)
      ultimately show ?thesis
        using assms(4,5) True len by simp
    next
      case False
      then have "nat (monthIndex start d') \<noteq> nat (monthIndex start d)"
        using in_w assms(4) by simp
      then show ?thesis
        using assms(6,7) by (auto simp: inside)
    qed
  qed
qed

lemma label_kept:
  assumes "parser_ok parse" and "valid_date d"
    and "0 \<le> monthIndex start d" and "monthIndex start d < int numMonths"
  shows "wf_grid numMonths numDays g \<Longrightarrow>
         g ! nat (monthIndex start d) ! 0 = Year d * 100 + Month d \<Longrightarrow>
         daysLoop_13x32 parse start g days = Continue g' \<Longrightarrow>
         g' ! nat (monthIndex start d) ! 0 = Year d * 100 + Month d"
proof (induction days arbitrary: g)
  case Nil
  then show ?case by simp
next
  case (Cons day days)
  from Cons.prems(3) obtain g1 where s: "dayStep_13x32 parse start g day = Continue g1"
    and r: "daysLoop_13x32 parse start g1 days = Continue g'"
    by (auto split: loop_outcome.splits)
  have "wf_grid numMonths numDays g1"
    using dayStep_13x32_wf [OF assms(1) Cons.prems(1), of start day] s by simp
  moreover have "g1 ! nat (monthIndex start d) ! 0 = Year d * 100 + Month d"
    using assms(1) Cons.prems(1) assms(2-4) Cons.prems(2) s by (rule label_step)
  ultimately show ?case using r by (rule Cons.IH)
qed

lemma label_written:
  assumes "parser_ok parse" and "parse (Date day) = Inr d"
    and "0 \<le> monthIndex start d" and "monthIndex start d < int numMonths"
  shows "wf_grid numMonths numDays g \<Longrightarrow> day \<in> set days \<Longrightarrow>
         daysLoop_13x32 parse start g days = Continue g' \<Longrightarrow>
         g' ! nat (monthIndex start d) ! 0 = Year d * 100 + Month d"
proof (induction days arbitrary: g)
  case Nil
  then show ?case by simp
next
  case (Cons x days)
  from assms(1,2) have v: "valid_date d" by (simp add: parser_ok_def)
  from Cons.prems(3) obtain g1 where s: "dayStep_13x32 parse start g x = Continue g1"
    and r: "daysLoop_13x32 parse start g1 days = Continue g'"
    by (auto split: loop_outcome.splits)
  have wf1: "wf_grid numMonths numDays g1"
    using dayStep_13x32_wf [OF assms(1) Cons.prems(1), of start x] s by simp
  show ?case
  proof (cases "day \<in> set days")
    case True
    with wf1 r show ?thesis by (intro Cons.IH)
  next
    case False
    with Cons.prems(2) have x: "x = day" by simp
    have len: "nat (monthIndex start d) < length g"
      using Cons.prems(1) assms(3,4) by (simp add: wf_grid_def)
    have "0 < length (g ! nat (monthIndex start d))"
      using wf_row [OF Cons.prems(1), of "nat (monthIndex start d)"] assms(3,4)
      by (simp add: numDays_def)
    with s len have "g1 ! nat (monthIndex start d) ! 0 = Year d * 100 + Month d"
      unfolding x dayStep_13x32_inside [of parse day d g start, OF assms(2) v Cons.prems(1) assms(3,4)]
      by auto
    with assms(1) v assms(3,4) wf1 show ?thesis using r by (rule label_kept)
  qed
qed

lemma decode_label:
  "1 \<le> m \<Longrightarrow> m \<le> 12 \<Longrightarrow> decodeYearMonth (y * 100 + m) = (y, m)"
  by (simp add: decodeYearMonth_def)

section \<open>Empty cells\<close>

lemma viewCell_13x32_zero:
  "0 < day \<Longrightarrow> viewCell_13x32 st day 0 = darkGrey st ('' '' @ ballotX @ ''| '')"
  by (simp add: viewCell_13x32_def)

lemma viewCell_12x31_zero: "viewCell_12x31 0 = ''[  ] ''"
  by (simp add: viewCell_12x31_def)

lemma fetch_13x32_empty:
  "fetchData_13x32 parse now (Inr []) =
     Some \<lparr>msg_contributions = zeroGrid numMonths numDays, msg_err = None\<rparr>"
  by (simp add: fetchData_13x32_def)

lemma fetch_12x31_empty:
  "fetchData_12x31 parse (Inr []) = Some \<lparr>msg_contributions = zeroGrid 12 31, msg_err = None\<rparr>"
  by (simp add: fetchData_12x31_def)

section \<open>Update on a completion message\<close>

lemma Update_failure:
  "msg_err fm = Some e \<Longrightarrow> Update ops m (FetchMsg fm) = (m\<lparr>err := Some e\<rparr>, None)"
  by (simp add: Update_def)

lemma Update_success:
  "msg_err fm = None \<Longrightarrow>
   Update ops m (FetchMsg fm) = forwardToInput ops (m\<lparr>contributions := msg_contributions fm\<rparr>) (FetchMsg fm)"
  by (simp add: Update_def)

lemma forwardToInput_fields:
  "contributions (fst (forwardToInput ops m msg)) = contributions m
   \<and> submittedName (fst (forwardToInput ops m msg)) = submittedName m
   \<and> err (fst (forwardToInput ops m msg)) = err m
   \<and> username (fst (forwardToInput ops m msg)) = fst (ti_Update ops msg (username m))
   \<and> snd (forwardToInput ops m msg) = map_option TextInputCmd (snd (ti_Update ops msg (username m)))"
  by (simp add: forwardToInput_def split: prod.splits)

lemma View_13x32_error: "err m = Some e \<Longrightarrow> View_13x32 ops st m = ''Error: '' @ e @ nl"
  by (simp add: View_13x32_def)

lemma View_12x31_error: "err m = Some e \<Longrightarrow> View_12x31 ops m = ''Error: '' @ e @ nl"
  by (simp add: View_12x31_def)

lemma View_13x32_table: "err m = None \<Longrightarrow> View_13x32 ops st m = viewTable_13x32 ops st m"
  by (simp add: View_13x32_def)

lemma View_12x31_table: "err m = None \<Longrightarrow> View_12x31 ops m = viewTable_12x31 ops m"
  by (simp add: View_12x31_def)

lemma plainInput_simps:
  "ti_Value plainInput t = t"
  "ti_SetValue plainInput s t = s"
  "ti_Update plainInput (KeyMsg k) t = (if length k = 1 then (t @ k, None) else (t, None))"
  "ti_Update plainInput (FetchMsg fm) t = (t, None)"
  "ti_Update plainInput (OtherMsg x) t = (t, None)"
  by (simp_all add: plainInput_def)

section \<open>A date that does not parse ends the run with an error\<close>

lemma daysLoop_13x32_malformed:
  assumes "parser_ok parse" and "parse (Date day) = Inl e"
  shows "wf_grid numMonths numDays g \<Longrightarrow> day \<in> set days \<Longrightarrow>
         \<exists>e'. daysLoop_13x32 parse start g days = Return (errMsg numMonths numDays e')"
proof (induction days arbitrary: g)
  case Nil
  then show ?case by simp
next
  case (Cons x days)
  note step = dayStep_13x32_wf [OF assms(1) Cons.prems(1), of start x]
  show ?case
  proof (cases "dayStep_13x32 parse start g x")
    case Panic
    with step show ?thesis by simp
  next
    case (Return m)
    with step show ?thesis by auto
  next
    case (Continue g1)
    with step have wf1: "wf_grid numMonths numDays g1" by simp
    from Continue assms(2) have "x \<noteq> day"
      by (auto simp: dayStep_13x32_error)
    with Cons.prems(2) have "day \<in> set days" by simp
    from Cons.IH [OF wf1 this] Continue show ?thesis by simp
  qed
qed

lemma daysLoop_12x31_malformed:
  assumes "parser_ok parse" and "parse (Date day) = Inl e"
  shows "wf_grid 12 31 g \<Longrightarrow> day \<in> set days \<Longrightarrow>
         \<exists>e'. daysLoop_12x31 parse g days = Return (errMsg 12 31 e')"
proof (induction days arbitrary: g)
  case Nil
  then show ?case by simp
next
  case (Cons x days)
  note step = dayStep_12x31_wf [OF assms(1) Cons.prems(1), of x]
  show ?case
  proof (cases "dayStep_12x31 parse g x")
    case Panic
    with step show ?thesis by simp
  next
    case (Return m)
    with step show ?thesis by auto
  next
    case (Continue g1)
    with step have wf1: "wf_grid 12 31 g1" by simp
    from Continue assms(2) have "x \<noteq> day"
      by (auto simp: dayStep_12x31_error)
    with Cons.prems(2) have "day \<in> set days" by simp
    from Cons.IH [OF wf1 this] Continue show ?thesis by simp
  qed
qed

lemma fetchData_malformed:
  assumes "parser_ok parse" and "parse (Date day) = Inl e" and "w \<in> set weeks" and "day \<in> set w"
  shows "(\<exists>e'. fetchData_13x32 parse now (Inr weeks) = Some (errMsg numMonths numDays e'))
         \<and> (\<exists>e'. fetchData_12x31 parse (Inr weeks) = Some (errMsg 12 31 e'))"
proof -
  from assms(3,4) have d: "day \<in> set (concat weeks)" by auto
  from daysLoop_13x32_malformed [OF assms(1,2) wf_zeroGrid d, of "startDate now"]
    daysLoop_12x31_malformed [OF assms(1,2) wf_zeroGrid d]
  show ?thesis
    by (auto simp: fetchData_13x32_def fetchData_12x31_def weeksLoop_13x32_concat
        weeksLoop_12x31_concat)
qed

section \<open>The label as the view prints it\<close>

lemma digitsOf_snoc:
  "0 < a \<Longrightarrow> b < 10 \<Longrightarrow> digitsOf (a * 10 + b) = digitsOf a @ [digitChar b]"
  by (subst digitsOf.simps) simp

lemma digitsOf_small: "n < 10 \<Longrightarrow> digitsOf n = [digitChar n]"
  by (subst digitsOf.simps) simp

lemma length_digitsOf_ge: "10 ^ k \<le> n \<Longrightarrow> k < length (digitsOf n)"
proof (induction n arbitrary: k rule: digitsOf.induct)
  case (1 n)
  show ?case
  proof (cases k)
    case 0
    then show ?thesis using digitsOf_nonempty [of n] by simp
  next
    case (Suc j)
    with 1(2) have le: "10 * 10 ^ j \<le> n" by simp
    moreover have "(1::nat) \<le> 10 ^ j" by simp
    ultimately have big: "\<not> n < 10" by linarith
    from le have "10 ^ j \<le> n div 10" by (simp add: less_eq_div_iff_mult_less_eq)
    with 1(1) [OF big] have "j < length (digitsOf (n div 10))" by simp
    with big Suc show ?thesis by (subst digitsOf.simps) simp
  qed
qed

lemma two_digits:
  assumes "m < 100"
  shows "replicate (2 - length (digitsOf m)) (CHR ''0'') @ digitsOf m
         = [digitChar (m div 10), digitChar (m mod 10)]"
proof (cases "m < 10")
  case True
  then show ?thesis by (simp add: digitsOf_small digitChar_def)
next
  case False
  with assms have "m div 10 < 10" by simp
  with False show ?thesis
    by (subst (1 2) digitsOf.simps) (simp add: digitsOf_small)
qed

lemma sprintf_label:
  assumes "valid_date d" and "1000 \<le> Year d"
  shows "sprintf_d 6 (Year d * 100 + Month d) = formatYearMonth d"
proof -
  let ?y = "nat (Year d)" and ?m = "nat (Month d)"
  from assms have y: "1000 \<le> ?y" "?y < 10 ^ 4" and m: "?m < 100" "0 \<le> Month d" "0 \<le> Year d"
    by (auto simp: valid_date_def)
  have n: "nat (Year d * 100 + Month d) = (?y * 10 + ?m div 10) * 10 + ?m mod 10"
    using m by (simp add: nat_add_distrib nat_mult_distrib)
  have "digitsOf ((?y * 10 + ?m div 10) * 10 + ?m mod 10)
        = digitsOf (?y * 10 + ?m div 10) @ [digitChar (?m mod 10)]"
    using y by (intro digitsOf_snoc) auto
  moreover have "digitsOf (?y * 10 + ?m div 10) = digitsOf ?y @ [digitChar (?m div 10)]"
    using y m by (intro digitsOf_snoc) auto
  ultimately have ds: "digitsOf (nat (Year d * 100 + Month d))
            = digitsOf ?y @ [digitChar (?m div 10), digitChar (?m mod 10)]"
    by (simp only: n append_assoc append_Cons append_Nil)
  have "3 < length (digitsOf ?y)"
    using y(1) by (intro length_digitsOf_ge) simp
  moreover have "length (digitsOf ?y) \<le> 4"
    using y(2) by (intro length_digitsOf_le) simp_all
  ultimately have len: "length (digitsOf ?y) = 4" by simp
  have "appendInt (Year d) 4 = digitsOf ?y"
    using m by (simp add: appendInt_def len)
  moreover have "appendInt (Month d) 2 = [digitChar (?m div 10), digitChar (?m mod 10)]"
    using m two_digits [OF m(1)] by (simp add: appendInt_def)
  ultimately show ?thesis
    using m by (simp add: sprintf_d_def Let_def formatYearMonth_def ds len)
qed

section \<open>Claims about the grid builder\<close>

text \<open>
  C1, as the code has it. In the 13 x 32 revisions the row a sample is written to
  is \<open>(sampleYear - anchorYear) * 12 + (sampleMonth - anchorMonth)\<close>, the anchor
  being \<^verbatim>\<open>time.Now().AddDate(-1, 0, 0)\<close>: a sample inside the window lands in that
  row, and a sample of the anchor's own year and month in row 0. The 12 x 31
  revision of \<^verbatim>\<open>main.go\<close> has no anchor: its row is \<open>sampleMonth - 1\<close>.
\<close>

theorem row_index_by_revision:
  assumes "parse (Date day) = Inr d" and "valid_date d"
    and "wf_grid numMonths numDays g" and "wf_grid 12 31 h"
  shows "dayStep_13x32 parse (startDate now) g day =
           (let i = (Year d - Year (startDate now)) * 12 + (Month d - Month (startDate now))
            in if 0 \<le> i \<and> i < 13
               then Continue (g[nat i := ((g ! nat i)[nat (Day d) := ContributionCount day])
                                           [0 := Year d * 100 + Month d]])
               else Continue g)
         \<and> (Year d = Year (startDate now) \<and> Month d = Month (startDate now) \<longrightarrow>
              dayStep_13x32 parse (startDate now) g day =
                Continue (g[0 := ((g ! 0)[nat (Day d) := ContributionCount day])
                                   [0 := Year d * 100 + Month d]]))
         \<and> dayStep_12x31 parse h day =
              Continue (h[nat (Month d - 1) :=
                          (h ! nat (Month d - 1))[nat (Day d - 1) := ContributionCount day]])"
proof -
  let ?i = "(Year d - Year (startDate now)) * 12 + (Month d - Month (startDate now))"
  have i: "monthIndex (startDate now) d = ?i"
    by (simp add: monthIndex_def)
  have a: "dayStep_13x32 parse (startDate now) g day =
             (if 0 \<le> ?i \<and> ?i < 13
              then Continue (g[nat ?i := ((g ! nat ?i)[nat (Day d) := ContributionCount day])
                                           [0 := Year d * 100 + Month d]])
              else Continue g)"
  proof (cases "0 \<le> ?i \<and> ?i < 13")
    case True
    then have "0 \<le> monthIndex (startDate now) d" "monthIndex (startDate now) d < int numMonths"
      by (simp_all add: i numMonths_def)
    from dayStep_13x32_inside [of parse day d g "startDate now", OF assms(1-3) this] True
    show ?thesis by (simp add: i)
  next
    case False
    then have "monthIndex (startDate now) d < 0 \<or> int numMonths \<le> monthIndex (startDate now) d"
      by (auto simp: i numMonths_def)
    from dayStep_13x32_outside [of parse day d "startDate now" g, OF assms(1,2) this]
    have s: "dayStep_13x32 parse (startDate now) g day = Continue g" .
    show ?thesis by (simp only: s False if_False)
  qed
  have b: "dayStep_13x32 parse (startDate now) g day =
             Continue (g[0 := ((g ! 0)[nat (Day d) := ContributionCount day])
                                [0 := Year d * 100 + Month d]])"
    if "Year d = Year (startDate now) \<and> Month d = Month (startDate now)"
    using a that by simp
  from a b dayStep_12x31_store [of parse day d h, OF assms(1,2,4)]
  show ?thesis by (simp add: Let_def)
qed

text \<open>The theorem at the sample 2023-05-25 with count 4, fetched on 2024-05-20.\<close>

theorem row_index_by_revision_witness:
  "parseDate (Date (day_of ''2023-05-25'' 4)) = Inr \<lparr>Year = 2023, Month = 5, Day = 25\<rparr>
   \<and> valid_date \<lparr>Year = 2023, Month = 5, Day = 25\<rparr>
   \<and> wf_grid numMonths numDays (zeroGrid numMonths numDays)
   \<and> wf_grid 12 31 (zeroGrid 12 31)
   \<and> Year \<lparr>Year = 2023, Month = 5, Day = 25\<rparr> = Year (startDate \<lparr>Year = 2024, Month = 5, Day = 20\<rparr>)
   \<and> Month \<lparr>Year = 2023, Month = 5, Day = 25\<rparr> = Month (startDate \<lparr>Year = 2024, Month = 5, Day = 20\<rparr>)
   \<and> dayStep_13x32 parseDate (startDate \<lparr>Year = 2024, Month = 5, Day = 20\<rparr>)
        (zeroGrid numMonths numDays) (day_of ''2023-05-25'' 4)
      = Continue ((zeroGrid numMonths numDays)
                    [0 := ((zeroGrid numMonths numDays ! 0)[25 := 4])[0 := 202305]])
   \<and> dayStep_12x31 parseDate (zeroGrid 12 31) (day_of ''2023-05-25'' 4)
      = Continue ((zeroGrid 12 31)[4 := (zeroGrid 12 31 ! 4)[24 := 4]])"
proof -
  have p: "parseDate (Date (day_of ''2023-05-25'' 4)) = Inr \<lparr>Year = 2023, Month = 5, Day = 25\<rparr>"
    by (simp add: day_of_def parse_2023_05_25)
  from row_index_by_revision [of parseDate "day_of ''2023-05-25'' 4" _ "zeroGrid numMonths numDays"
      "zeroGrid 12 31" "\<lparr>Year = 2024, Month = 5, Day = 20\<rparr>",
      OF p valid_2023_05_25 wf_zeroGrid wf_zeroGrid]
  show ?thesis
    using p valid_2023_05_25 wf_zeroGrid
    by (simp add: startDate_def day_of_def)
qed

text \<open>
  The formula does not describe \<^verbatim>\<open>main.go\<close>: the same sample, in the anchor's own
  month, is written to row 4 there and row 0 stays empty.
\<close>

theorem row_index_counterexample:
  "parseDate ''2023-05-25'' = Inr \<lparr>Year = 2023, Month = 5, Day = 25\<rparr>
   \<and> (Year \<lparr>Year = 2023, Month = 5, Day = 25\<rparr> - Year (startDate \<lparr>Year = 2024, Month = 5, Day = 20\<rparr>)) * 12
       + (Month \<lparr>Year = 2023, Month = 5, Day = 25\<rparr> - Month (startDate \<lparr>Year = 2024, Month = 5, Day = 20\<rparr>)) = 0
   \<and> fetchData_12x31 parseDate (Inr [[day_of ''2023-05-25'' 4]])
       = Some \<lparr>msg_contributions = (zeroGrid 12 31)[4 := (zeroGrid 12 31 ! 4)[24 := 4]], msg_err = None\<rparr>
   \<and> (zeroGrid 12 31)[4 := (zeroGrid 12 31 ! 4)[24 := 4]] ! 4 ! 24 = 4
   \<and> (zeroGrid 12 31)[4 := (zeroGrid 12 31 ! 4)[24 := 4]] ! 0 ! 24 = 0"
proof -
  have p: "parseDate (Date (day_of ''2023-05-25'' 4)) = Inr \<lparr>Year = 2023, Month = 5, Day = 25\<rparr>"
    by (simp add: day_of_def parse_2023_05_25)
  have "dayStep_12x31 parseDate (zeroGrid 12 31) (day_of ''2023-05-25'' 4)
        = Continue ((zeroGrid 12 31)[4 := (zeroGrid 12 31 ! 4)[24 := 4]])"
    using dayStep_12x31_store [of parseDate _ _ "zeroGrid 12 31", OF p valid_2023_05_25 wf_zeroGrid]
    by (simp add: day_of_def)
  then show ?thesis
    by (simp add: fetch_12x31_one parse_2023_05_25 startDate_def length_zeroGrid zeroGrid_row zeroGrid_nth)
qed

text \<open>
  C2, as the code has it. The arrays are zero-initialised and the view prints the
  empty-cell glyph for every cell that holds 0, so there is no value set apart
  for "no data": a cell into which a sample with count 0 has just been written
  holds 0, the value of a cell of a fresh array, and the view renders the two
  alike (the ballot mark in the 13 x 32 revisions, blanks in \<^verbatim>\<open>main.go\<close>).
\<close>

theorem zero_count_renders_as_no_data:
  assumes "parse (Date day) = Inr d" and "valid_date d" and "ContributionCount day = 0"
    and "wf_grid numMonths numDays g"
    and "0 \<le> monthIndex start d" and "monthIndex start d < int numMonths"
    and "wf_grid 12 31 h"
  shows "\<exists>g' h'.
           dayStep_13x32 parse start g day = Continue g'
         \<and> g' ! nat (monthIndex start d) ! nat (Day d) = 0
         \<and> zeroGrid numMonths numDays ! nat (monthIndex start d) ! nat (Day d) = 0
         \<and> viewCell_13x32 st (nat (Day d)) (g' ! nat (monthIndex start d) ! nat (Day d))
             = viewCell_13x32 st (nat (Day d))
                 (zeroGrid numMonths numDays ! nat (monthIndex start d) ! nat (Day d))
         \<and> viewCell_13x32 st (nat (Day d)) (g' ! nat (monthIndex start d) ! nat (Day d))
             = darkGrey st ('' '' @ ballotX @ ''| '')
         \<and> dayStep_12x31 parse h day = Continue h'
         \<and> h' ! nat (Month d - 1) ! nat (Day d - 1) = 0
         \<and> zeroGrid 12 31 ! nat (Month d - 1) ! nat (Day d - 1) = 0
         \<and> viewCell_12x31 (h' ! nat (Month d - 1) ! nat (Day d - 1))
             = viewCell_12x31 (zeroGrid 12 31 ! nat (Month d - 1) ! nat (Day d - 1))
         \<and> viewCell_12x31 (h' ! nat (Month d - 1) ! nat (Day d - 1)) = ''[  ] ''"
proof -
  let ?i = "nat (monthIndex start d)"
  let ?g' = "g[?i := ((g ! ?i)[nat (Day d) := ContributionCount day])[0 := Year d * 100 + Month d]]"
  let ?r = "nat (Month d - 1)"
  let ?h' = "h[?r := (h ! ?r)[nat (Day d - 1) := ContributionCount day]]"
  from assms(2) have day: "0 < nat (Day d)" "nat (Day d) < numDays" "nat (Day d - 1) < 31"
    and mon: "?r < 12"
    by (auto simp: valid_date_def numDays_def)
  from assms(5,6) have i: "?i < numMonths" by simp
  have s13: "dayStep_13x32 parse start g day = Continue ?g'"
    using assms(1,2,4,5,6) by (rule dayStep_13x32_inside)
  have s12: "dayStep_12x31 parse h day = Continue ?h'"
    using assms(1,2,7) by (rule dayStep_12x31_store)
  have lg: "?i < length g" "nat (Day d) < length (g ! ?i)"
    using assms(4) i day wf_row [OF assms(4) i] by (simp_all add: wf_grid_def)
  have lh: "?r < length h" "nat (Day d - 1) < length (h ! ?r)"
    using assms(7) mon day wf_row [OF assms(7) mon] by (simp_all add: wf_grid_def)
  have c13: "?g' ! ?i ! nat (Day d) = 0"
    using lg day(1) assms(3) by simp
  have c12: "?h' ! ?r ! nat (Day d - 1) = 0"
    using lh assms(3) by simp
  have z13: "zeroGrid numMonths numDays ! ?i ! nat (Day d) = 0"
    using i day(2) by (rule zeroGrid_nth)
  have z12: "zeroGrid 12 31 ! ?r ! nat (Day d - 1) = 0"
    using mon day(3) by (rule zeroGrid_nth)
  have "dayStep_13x32 parse start g day = Continue ?g'
         \<and> ?g' ! ?i ! nat (Day d) = 0
         \<and> zeroGrid numMonths numDays ! ?i ! nat (Day d) = 0
         \<and> viewCell_13x32 st (nat (Day d)) (?g' ! ?i ! nat (Day d))
             = viewCell_13x32 st (nat (Day d)) (zeroGrid numMonths numDays ! ?i ! nat (Day d))
         \<and> viewCell_13x32 st (nat (Day d)) (?g' ! ?i ! nat (Day d))
             = darkGrey st ('' '' @ ballotX @ ''| '')
         \<and> dayStep_12x31 parse h day = Continue ?h'
         \<and> ?h' ! ?r ! nat (Day d - 1) = 0
         \<and> zeroGrid 12 31 ! ?r ! nat (Day d - 1) = 0
         \<and> viewCell_12x31 (?h' ! ?r ! nat (Day d - 1))
             = viewCell_12x31 (zeroGrid 12 31 ! ?r ! nat (Day d - 1))
         \<and> viewCell_12x31 (?h' ! ?r ! nat (Day d - 1)) = ''[  ] ''"
    by (simp only: s13 s12 c13 c12 z13 z12 viewCell_13x32_zero [OF day(1)] viewCell_12x31_zero simp_thms)
  then show ?thesis by blast
qed

text \<open>The theorem at the sample 2023-05-25 with count 0, fetched on 2024-05-20.\<close>

theorem zero_count_renders_as_no_data_witness:
  "parseDate (Date (day_of ''2023-05-25'' 0)) = Inr \<lparr>Year = 2023, Month = 5, Day = 25\<rparr>
   \<and> valid_date \<lparr>Year = 2023, Month = 5, Day = 25\<rparr>
   \<and> ContributionCount (day_of ''2023-05-25'' 0) = 0
   \<and> wf_grid numMonths numDays (zeroGrid numMonths numDays)
   \<and> monthIndex (startDate \<lparr>Year = 2024, Month = 5, Day = 20\<rparr>) \<lparr>Year = 2023, Month = 5, Day = 25\<rparr> = 0
   \<and> wf_grid 12 31 (zeroGrid 12 31)
   \<and> (\<exists>g' h'.
         dayStep_13x32 parseDate (startDate \<lparr>Year = 2024, Month = 5, Day = 20\<rparr>)
           (zeroGrid numMonths numDays) (day_of ''2023-05-25'' 0) = Continue g'
       \<and> g' ! 0 ! 25 = 0
       \<and> viewCell_13x32 plainStyles 25 (g' ! 0 ! 25)
           = viewCell_13x32 plainStyles 25 (zeroGrid numMonths numDays ! 0 ! 25)
       \<and> dayStep_12x31 parseDate (zeroGrid 12 31) (day_of ''2023-05-25'' 0) = Continue h'
       \<and> h' ! 4 ! 24 = 0
       \<and> viewCell_12x31 (h' ! 4 ! 24) = viewCell_12x31 (zeroGrid 12 31 ! 4 ! 24))"
proof -
  let ?now = "\<lparr>Year = 2024, Month = 5, Day = 20\<rparr>"
  have p: "parseDate (Date (day_of ''2023-05-25'' 0)) = Inr \<lparr>Year = 2023, Month = 5, Day = 25\<rparr>"
    by (rule parse_day_of) (rule parse_2023_05_25)
  have c: "ContributionCount (day_of ''2023-05-25'' 0) = 0"
    by (simp add: day_of_def)
  have m: "monthIndex (startDate ?now) \<lparr>Year = 2023, Month = 5, Day = 25\<rparr> = 0"
    by (simp add: monthIndex_def startDate_def)
  have lo: "0 \<le> monthIndex (startDate ?now) \<lparr>Year = 2023, Month = 5, Day = 25\<rparr>"
    and hi: "monthIndex (startDate ?now) \<lparr>Year = 2023, Month = 5, Day = 25\<rparr> < int numMonths"
    by (simp_all add: m numMonths_def)
  from zero_count_renders_as_no_data [of parseDate _ _ "zeroGrid numMonths numDays" "startDate ?now"
      "zeroGrid 12 31" plainStyles, OF p valid_2023_05_25 c wf_zeroGrid lo hi wf_zeroGrid]
  obtain g' h' where
    "dayStep_13x32 parseDate (startDate ?now) (zeroGrid numMonths numDays) (day_of ''2023-05-25'' 0)
       = Continue g'"
    "g' ! 0 ! 25 = 0"
    "viewCell_13x32 plainStyles 25 (g' ! 0 ! 25)
       = viewCell_13x32 plainStyles 25 (zeroGrid numMonths numDays ! 0 ! 25)"
    "dayStep_12x31 parseDate (zeroGrid 12 31) (day_of ''2023-05-25'' 0) = Continue h'"
    "h' ! 4 ! 24 = 0"
    "viewCell_12x31 (h' ! 4 ! 24) = viewCell_12x31 (zeroGrid 12 31 ! 4 ! 24)"
    by (auto simp: m)
  then show ?thesis
    using p valid_2023_05_25 c m wf_zeroGrid by blast
qed

text \<open>
  A response holding that sample and an empty response give arrays whose cell
  for the 25th renders the same, in both revisions: the written zero cannot be
  told from the absence of a sample.
\<close>

theorem zero_count_counterexample:
  "fetchData_13x32 parseDate \<lparr>Year = 2024, Month = 5, Day = 20\<rparr> (Inr [[day_of ''2023-05-25'' 0]])
     = Some \<lparr>msg_contributions = (zeroGrid numMonths numDays)
                [0 := ((zeroGrid numMonths numDays ! 0)[25 := 0])[0 := 202305]], msg_err = None\<rparr>
   \<and> fetchData_13x32 parseDate \<lparr>Year = 2024, Month = 5, Day = 20\<rparr> (Inr [])
     = Some \<lparr>msg_contributions = zeroGrid numMonths numDays, msg_err = None\<rparr>
   \<and> viewCell_13x32 plainStyles 25
        ((zeroGrid numMonths numDays)[0 := ((zeroGrid numMonths numDays ! 0)[25 := 0])[0 := 202305]] ! 0 ! 25)
     = viewCell_13x32 plainStyles 25 (zeroGrid numMonths numDays ! 0 ! 25)
   \<and> fetchData_12x31 parseDate (Inr [[day_of ''2023-05-25'' 0]])
     = Some \<lparr>msg_contributions = (zeroGrid 12 31)[4 := (zeroGrid 12 31 ! 4)[24 := 0]], msg_err = None\<rparr>
   \<and> fetchData_12x31 parseDate (Inr [])
     = Some \<lparr>msg_contributions = zeroGrid 12 31, msg_err = None\<rparr>
   \<and> viewCell_12x31 ((zeroGrid 12 31)[4 := (zeroGrid 12 31 ! 4)[24 := 0]] ! 4 ! 24)
     = viewCell_12x31 (zeroGrid 12 31 ! 4 ! 24)"
proof -
  let ?now = "\<lparr>Year = 2024, Month = 5, Day = 20\<rparr>"
  have p: "parseDate (Date (day_of ''2023-05-25'' 0)) = Inr \<lparr>Year = 2023, Month = 5, Day = 25\<rparr>"
    by (rule parse_day_of) (rule parse_2023_05_25)
  have m: "monthIndex (startDate ?now) \<lparr>Year = 2023, Month = 5, Day = 25\<rparr> = 0"
    by (simp add: monthIndex_def startDate_def)
  have a: "dayStep_13x32 parseDate (startDate ?now) (zeroGrid numMonths numDays) (day_of ''2023-05-25'' 0)
        = Continue ((zeroGrid numMonths numDays)
                     [0 := ((zeroGrid numMonths numDays ! 0)[25 := 0])[0 := 202305]])"
    using dayStep_13x32_inside [of parseDate _ _ "zeroGrid numMonths numDays" "startDate ?now",
        OF p valid_2023_05_25 wf_zeroGrid]
    by (simp add: m numMonths_def day_of_def)
  have b: "dayStep_12x31 parseDate (zeroGrid 12 31) (day_of ''2023-05-25'' 0)
        = Continue ((zeroGrid 12 31)[4 := (zeroGrid 12 31 ! 4)[24 := 0]])"
    using dayStep_12x31_store [of parseDate _ _ "zeroGrid 12 31", OF p valid_2023_05_25 wf_zeroGrid]
    by (simp add: day_of_def)
  show ?thesis
    unfolding fetch_13x32_one fetch_12x31_one fetch_13x32_empty fetch_12x31_empty a b
    by (simp add: length_zeroGrid zeroGrid_row numMonths_def numDays_def)
qed

text \<open>
  C6, as the code has it. In the 13 x 32 revisions a sample whose month index is
  negative or at least \<open>numMonths\<close> is skipped: the array is left as it was, the
  loop goes on with the next sample, and no error is returned. The 12 x 31
  revision of \<^verbatim>\<open>main.go\<close> has no window test: it stores every parsed sample at
  \<open>[month - 1][day - 1]\<close>, whatever its distance from the anchor.
\<close>

theorem out_of_window_by_revision:
  assumes "parse (Date day) = Inr d" and "valid_date d"
    and "monthIndex (startDate now) d < 0 \<or> int numMonths \<le> monthIndex (startDate now) d"
    and "wf_grid 12 31 h"
  shows "dayStep_13x32 parse (startDate now) g day = Continue g
         \<and> daysLoop_13x32 parse (startDate now) g (day # days)
             = daysLoop_13x32 parse (startDate now) g days
         \<and> dayStep_12x31 parse h day =
              Continue (h[nat (Month d - 1) :=
                          (h ! nat (Month d - 1))[nat (Day d - 1) := ContributionCount day]])"
proof -
  have "dayStep_13x32 parse (startDate now) g day = Continue g"
    using assms(1-3) by (rule dayStep_13x32_outside)
  moreover note dayStep_12x31_store [of parse day d h, OF assms(1,2,4)]
  ultimately show ?thesis by simp
qed

text \<open>The theorem at the sample 2022-01-01 with count 7, fetched on 2024-05-20.\<close>

theorem out_of_window_by_revision_witness:
  "parseDate (Date (day_of ''2022-01-01'' 7)) = Inr \<lparr>Year = 2022, Month = 1, Day = 1\<rparr>
   \<and> valid_date \<lparr>Year = 2022, Month = 1, Day = 1\<rparr>
   \<and> monthIndex (startDate \<lparr>Year = 2024, Month = 5, Day = 20\<rparr>) \<lparr>Year = 2022, Month = 1, Day = 1\<rparr> < 0
   \<and> wf_grid 12 31 (zeroGrid 12 31)
   \<and> dayStep_13x32 parseDate (startDate \<lparr>Year = 2024, Month = 5, Day = 20\<rparr>)
        (zeroGrid numMonths numDays) (day_of ''2022-01-01'' 7)
      = Continue (zeroGrid numMonths numDays)
   \<and> daysLoop_13x32 parseDate (startDate \<lparr>Year = 2024, Month = 5, Day = 20\<rparr>)
        (zeroGrid numMonths numDays) [day_of ''2022-01-01'' 7]
      = Continue (zeroGrid numMonths numDays)
   \<and> dayStep_12x31 parseDate (zeroGrid 12 31) (day_of ''2022-01-01'' 7)
      = Continue ((zeroGrid 12 31)[0 := (zeroGrid 12 31 ! 0)[0 := 7]])"
proof -
  have p: "parseDate (Date (day_of ''2022-01-01'' 7)) = Inr \<lparr>Year = 2022, Month = 1, Day = 1\<rparr>"
    by (rule parse_day_of) (rule parse_2022_01_01)
  have m: "monthIndex (startDate \<lparr>Year = 2024, Month = 5, Day = 20\<rparr>) \<lparr>Year = 2022, Month = 1, Day = 1\<rparr> < 0"
    by (simp add: monthIndex_def startDate_def)
  then have m': "monthIndex (startDate \<lparr>Year = 2024, Month = 5, Day = 20\<rparr>) \<lparr>Year = 2022, Month = 1, Day = 1\<rparr> < 0
     \<or> int numMonths \<le> monthIndex (startDate \<lparr>Year = 2024, Month = 5, Day = 20\<rparr>) \<lparr>Year = 2022, Month = 1, Day = 1\<rparr>"
    by simp
  from out_of_window_by_revision [of parseDate "day_of ''2022-01-01'' 7" _
      "\<lparr>Year = 2024, Month = 5, Day = 20\<rparr>" "zeroGrid 12 31" "zeroGrid numMonths numDays" "[]",
      OF p valid_2022_01_01 m' wf_zeroGrid]
  show ?thesis
    using p valid_2022_01_01 m wf_zeroGrid by (simp add: day_of_def)
qed

text \<open>
  \<^verbatim>\<open>main.go\<close> does not discard that sample, sixteen months before the anchor: it
  stores the count 7 in row 0, column 0.
\<close>

theorem out_of_window_counterexample:
  "parseDate ''2022-01-01'' = Inr \<lparr>Year = 2022, Month = 1, Day = 1\<rparr>
   \<and> monthIndex (startDate \<lparr>Year = 2024, Month = 5, Day = 20\<rparr>) \<lparr>Year = 2022, Month = 1, Day = 1\<rparr> = - 16
   \<and> fetchData_12x31 parseDate (Inr [[day_of ''2022-01-01'' 7]])
       = Some \<lparr>msg_contributions = (zeroGrid 12 31)[0 := (zeroGrid 12 31 ! 0)[0 := 7]], msg_err = None\<rparr>
   \<and> (zeroGrid 12 31)[0 := (zeroGrid 12 31 ! 0)[0 := 7]] ! 0 ! 0 = 7
   \<and> zeroGrid 12 31 ! 0 ! 0 = 0"
proof -
  have p: "parseDate (Date (day_of ''2022-01-01'' 7)) = Inr \<lparr>Year = 2022, Month = 1, Day = 1\<rparr>"
    by (rule parse_day_of) (rule parse_2022_01_01)
  have "dayStep_12x31 parseDate (zeroGrid 12 31) (day_of ''2022-01-01'' 7)
        = Continue ((zeroGrid 12 31)[0 := (zeroGrid 12 31 ! 0)[0 := 7]])"
    using dayStep_12x31_store [of parseDate _ _ "zeroGrid 12 31", OF p valid_2022_01_01 wf_zeroGrid]
    by (simp add: day_of_def)
  then show ?thesis
    by (simp add: fetch_12x31_one parse_2022_01_01 startDate_def monthIndex_def
        length_zeroGrid zeroGrid_row zeroGrid_nth)
qed

text \<open>
  C8 (13 x 32 revisions): after a successful run, the row of every sample that
  fell inside the window holds in column 0 the number \<open>year * 100 + month\<close> of
  that sample, which is what \<^verbatim>\<open>Atoi(date.Format("200601"))\<close> returns; read back as a
  decimal label it gives the year and the month from which the row index was
  computed. The view prints the label with \<^verbatim>\<open>%6d\<close>; for a year of four digits that
  is the text \<^verbatim>\<open>date.Format("200601")\<close> of the sample.
\<close>

theorem label_roundtrip:
  assumes "parser_ok parse"
    and "fetchData_13x32 parse now (Inr weeks) = Some \<lparr>msg_contributions = g, msg_err = None\<rparr>"
    and "w \<in> set weeks" and "day \<in> set w" and "parse (Date day) = Inr d"
    and "0 \<le> monthIndex (startDate now) d" and "monthIndex (startDate now) d < int numMonths"
  shows "g ! nat (monthIndex (startDate now) d) ! 0 = Year d * 100 + Month d
         \<and> decodeYearMonth (g ! nat (monthIndex (startDate now) d) ! 0) = (Year d, Month d)
         \<and> (1000 \<le> Year d \<longrightarrow>
              viewCell_13x32 st 0 (g ! nat (monthIndex (startDate now) d) ! 0)
                = ''|'' @ lightGrey st (formatYearMonth d) @ ''| '')"
proof -
  from assms(1,5) have v: "valid_date d" by (simp add: parser_ok_def)
  have "daysLoop_13x32 parse (startDate now) (zeroGrid numMonths numDays) (concat weeks) = Continue g"
    using assms(2)
    by (auto simp: fetchData_13x32_def weeksLoop_13x32_concat errMsg_def
        split: loop_outcome.splits
        dest: daysLoop_13x32_wf [OF assms(1) wf_zeroGrid, THEN conjunct2, THEN conjunct2, rule_format])
  moreover have "day \<in> set (concat weeks)" using assms(3,4) by auto
  ultimately have "g ! nat (monthIndex (startDate now) d) ! 0 = Year d * 100 + Month d"
    using label_written [OF assms(1,5,6,7) wf_zeroGrid] by blast
  moreover have "Year d * 100 + Month d \<noteq> 0"
    using v by (simp add: valid_date_def)
  ultimately show ?thesis
    using v by (simp add: decode_label valid_date_def viewCell_13x32_def sprintf_label)
qed

text \<open>The theorem at the sample 2023-05-25, fetched on 2024-05-20: the label is 202305.\<close>

theorem label_roundtrip_witness:
  "parser_ok parseDate
   \<and> fetchData_13x32 parseDate \<lparr>Year = 2024, Month = 5, Day = 20\<rparr>
        (Inr [[day_of ''2023-05-25'' 4]])
      = Some \<lparr>msg_contributions = (zeroGrid numMonths numDays)
                 [0 := ((zeroGrid numMonths numDays ! 0)[25 := 4])[0 := 202305]],
              msg_err = None\<rparr>
   \<and> [day_of ''2023-05-25'' 4] \<in> set [[day_of ''2023-05-25'' 4]]
   \<and> day_of ''2023-05-25'' 4 \<in> set [day_of ''2023-05-25'' 4]
   \<and> parseDate (Date (day_of ''2023-05-25'' 4)) = Inr \<lparr>Year = 2023, Month = 5, Day = 25\<rparr>
   \<and> monthIndex (startDate \<lparr>Year = 2024, Month = 5, Day = 20\<rparr>) \<lparr>Year = 2023, Month = 5, Day = 25\<rparr> = 0
   \<and> (zeroGrid numMonths numDays)[0 := ((zeroGrid numMonths numDays ! 0)[25 := 4])[0 := 202305]] ! 0 ! 0
      = 202305
   \<and> decodeYearMonth 202305 = (2023, 5)
   \<and> 1000 \<le> Year \<lparr>Year = 2023, Month = 5, Day = 25\<rparr>
   \<and> viewCell_13x32 plainStyles 0 202305 = ''|202305| ''"
proof -
  let ?now = "\<lparr>Year = 2024, Month = 5, Day = 20\<rparr>"
  let ?g = "(zeroGrid numMonths numDays)[0 := ((zeroGrid numMonths numDays ! 0)[25 := 4])[0 := 202305]]"
  have p: "parseDate (Date (day_of ''2023-05-25'' 4)) = Inr \<lparr>Year = 2023, Month = 5, Day = 25\<rparr>"
    by (rule parse_day_of) (rule parse_2023_05_25)
  have m: "monthIndex (startDate ?now) \<lparr>Year = 2023, Month = 5, Day = 25\<rparr> = 0"
    by (simp add: monthIndex_def startDate_def)
  have "dayStep_13x32 parseDate (startDate ?now) (zeroGrid numMonths numDays) (day_of ''2023-05-25'' 4)
        = Continue ?g"
    using dayStep_13x32_inside [of parseDate _ _ "zeroGrid numMonths numDays" "startDate ?now",
        OF p valid_2023_05_25 wf_zeroGrid]
    by (simp add: m numMonths_def day_of_def)
  then have f: "fetchData_13x32 parseDate ?now (Inr [[day_of ''2023-05-25'' 4]])
        = Some \<lparr>msg_contributions = ?g, msg_err = None\<rparr>"
    by (simp add: fetch_13x32_one)
  have lo: "0 \<le> monthIndex (startDate ?now) \<lparr>Year = 2023, Month = 5, Day = 25\<rparr>"
    and hi: "monthIndex (startDate ?now) \<lparr>Year = 2023, Month = 5, Day = 25\<rparr> < int numMonths"
    by (simp_all add: m numMonths_def)
  have w: "[day_of ''2023-05-25'' 4] \<in> set [[day_of ''2023-05-25'' 4]]"
    and d: "day_of ''2023-05-25'' 4 \<in> set [day_of ''2023-05-25'' 4]"
    by simp_all
  have fy: "formatYearMonth \<lparr>Year = 2023, Month = 5, Day = 25\<rparr> = ''202305''"
    by (simp add: formatYearMonth_def appendInt_def digitsOf.simps digitChar_def)
  from label_roundtrip [OF parser_ok_parseDate f w d p lo hi, of plainStyles]
  show ?thesis
    using parser_ok_parseDate f p m
    by (simp add: length_zeroGrid zeroGrid_row numMonths_def numDays_def decodeYearMonth_def
        fy plainStyles_def)
qed

text \<open>
  C9: the message the command returns is a function of the response and of the
  anchor. Two runs over the same response whose anchors have the same year and
  month return the same message, hence the same array; the day of the anchor
  and the state of the program are not read. (The 12 x 31 revision reads no
  clock at all: \<open>fetchData_12x31\<close> has the response as its only input.)
\<close>

theorem same_anchor_same_grid:
  assumes "Year (startDate now1) = Year (startDate now2)"
    and "Month (startDate now1) = Month (startDate now2)"
  shows "fetchData_13x32 parse now1 resp = fetchData_13x32 parse now2 resp"
  using assms
  by (simp add: fetchData_13x32_def weeksLoop_13x32_concat
      daysLoop_13x32_anchor [of "startDate now1" "startDate now2"] split: sum.splits)

text \<open>The theorem at two runs on different days of May 2024.\<close>

theorem same_anchor_same_grid_witness:
  "Year (startDate \<lparr>Year = 2024, Month = 5, Day = 20\<rparr>) = Year (startDate \<lparr>Year = 2024, Month = 5, Day = 3\<rparr>)
   \<and> Month (startDate \<lparr>Year = 2024, Month = 5, Day = 20\<rparr>) = Month (startDate \<lparr>Year = 2024, Month = 5, Day = 3\<rparr>)
   \<and> fetchData_13x32 parseDate \<lparr>Year = 2024, Month = 5, Day = 20\<rparr> (Inr [[day_of ''2023-05-25'' 4]])
      = fetchData_13x32 parseDate \<lparr>Year = 2024, Month = 5, Day = 3\<rparr> (Inr [[day_of ''2023-05-25'' 4]])"
proof -
  have y: "Year (startDate \<lparr>Year = 2024, Month = 5, Day = 20\<rparr>) = Year (startDate \<lparr>Year = 2024, Month = 5, Day = 3\<rparr>)"
    and m: "Month (startDate \<lparr>Year = 2024, Month = 5, Day = 20\<rparr>) = Month (startDate \<lparr>Year = 2024, Month = 5, Day = 3\<rparr>)"
    by (simp_all add: startDate_def)
  from same_anchor_same_grid [OF y m] y m show ?thesis by simp
qed

text \<open>
  C10: with dates as \<^verbatim>\<open>time.Parse\<close> returns them, no store into the array is out of
  range, in either revision: running the command never ends in a panic.
\<close>

theorem writes_in_bounds:
  assumes "parser_ok parse"
  shows "fetchData_13x32 parse now resp \<noteq> None \<and> fetchData_12x31 parse resp \<noteq> None"
proof (cases resp)
  case (Inl e)
  then show ?thesis by (simp add: fetchData_13x32_def fetchData_12x31_def)
next
  case (Inr weeks)
  have "daysLoop_13x32 parse (startDate now) (zeroGrid numMonths numDays) (concat weeks) \<noteq> Panic"
    using daysLoop_13x32_wf [OF assms wf_zeroGrid] by blast
  moreover have "daysLoop_12x31 parse (zeroGrid 12 31) (concat weeks) \<noteq> Panic"
    using daysLoop_12x31_wf [OF assms wf_zeroGrid] by blast
  ultimately show ?thesis
    using Inr
    by (simp add: fetchData_13x32_def fetchData_12x31_def weeksLoop_13x32_concat
        weeksLoop_12x31_concat split: loop_outcome.splits)
qed

text \<open>The theorem at the concrete parser and a response of two samples.\<close>

theorem writes_in_bounds_witness:
  "parser_ok parseDate
   \<and> fetchData_13x32 parseDate \<lparr>Year = 2024, Month = 5, Day = 20\<rparr>
        (Inr [[day_of ''2023-05-25'' 4, day_of ''2022-01-01'' 7]]) \<noteq> None
   \<and> fetchData_12x31 parseDate (Inr [[day_of ''2023-05-25'' 4, day_of ''2022-01-01'' 7]]) \<noteq> None"
  using writes_in_bounds [OF parser_ok_parseDate] parser_ok_parseDate by simp

section \<open>Claims about the state machine\<close>

text \<open>
  The state has no phase field: \<open>Update\<close> tests the message only, and \<open>View\<close>
  chooses between the error screen and the table by \<open>err\<close> alone. The claims
  C3 to C5 and C7 are read accordingly: "Failed" is the state whose view is the
  error screen, and a fetch is pending from the \<open>FetchData\<close> command until its
  completion message arrives.
\<close>

text \<open>
  C3, as the code has it. \<open>Update\<close> has no guard on completions: in every
  state, pending fetch or not, a completion that carries an error records it
  (and changes nothing else), and a completion without error installs its
  array, leaves \<open>submittedName\<close> and \<open>err\<close> as they were, and passes the message on
  to the text input.
\<close>

theorem completion_always_applied:
  "(msg_err fm = Some e \<longrightarrow> Update ops m (FetchMsg fm) = (m\<lparr>err := Some e\<rparr>, None))
   \<and> (msg_err fm = None \<longrightarrow>
        contributions (fst (Update ops m (FetchMsg fm))) = msg_contributions fm
        \<and> err (fst (Update ops m (FetchMsg fm))) = err m
        \<and> submittedName (fst (Update ops m (FetchMsg fm))) = submittedName m
        \<and> username (fst (Update ops m (FetchMsg fm)))
            = fst (ti_Update ops (FetchMsg fm) (username m)))"
  by (simp add: Update_failure Update_success forwardToInput_fields)

text \<open>The theorem at the starting state, for a completion of each kind.\<close>

theorem completion_always_applied_witness:
  "msg_err (errMsg numMonths numDays ''boom'') = Some ''boom''
   \<and> Update plainInput plainModel (FetchMsg (errMsg numMonths numDays ''boom''))
      = (plainModel\<lparr>err := Some ''boom''\<rparr>, None)
   \<and> msg_err \<lparr>msg_contributions = zeroGrid numMonths numDays, msg_err = None\<rparr> = None
   \<and> contributions (fst (Update plainInput plainModel
        (FetchMsg \<lparr>msg_contributions = zeroGrid numMonths numDays, msg_err = None\<rparr>)))
      = zeroGrid numMonths numDays"
  using completion_always_applied [of "errMsg numMonths numDays ''boom''" "''boom''" plainInput plainModel]
    completion_always_applied [of "\<lparr>msg_contributions = zeroGrid numMonths numDays, msg_err = None\<rparr>"
      "''boom''" plainInput plainModel]
  by (simp add: errMsg_def)

text \<open>
  The starting state has never emitted a fetch, yet a completion without error
  replaces its array and a completion with an error sets \<open>err\<close>.
\<close>

theorem completion_ignored_counterexample:
  "contributions plainModel = zeroGrid numMonths numDays
   \<and> err plainModel = None
   \<and> contributions (fst (Update plainInput plainModel
        (FetchMsg \<lparr>msg_contributions =
                     (zeroGrid numMonths numDays)
                       [0 := ((zeroGrid numMonths numDays ! 0)[25 := 4])[0 := 202305]],
                   msg_err = None\<rparr>)))
      = (zeroGrid numMonths numDays)[0 := ((zeroGrid numMonths numDays ! 0)[25 := 4])[0 := 202305]]
   \<and> (zeroGrid numMonths numDays)[0 := ((zeroGrid numMonths numDays ! 0)[25 := 4])[0 := 202305]] ! 0 ! 25 = 4
   \<and> zeroGrid numMonths numDays ! 0 ! 25 = 0
   \<and> err (fst (Update plainInput plainModel (FetchMsg (errMsg numMonths numDays ''boom''))))
      = Some ''boom''"
  by (simp add: plainModel_def initialModel_13x32_def Update_def forwardToInput_def plainInput_simps
      errMsg_def length_zeroGrid zeroGrid_row numMonths_def numDays_def)

text \<open>
  C4, as the code has it. In every state a completion without error installs
  the returned array and leaves \<open>err\<close> as it was: nothing in the program resets
  \<open>err\<close>. With no error recorded the view then shows the table, built from the
  installed array; an error recorded by an earlier fetch stays, and the view
  keeps showing the error screen.
\<close>

theorem success_installs_grid_keeps_error:
  assumes "msg_err fm = None"
  shows "contributions (fst (Update ops m (FetchMsg fm))) = msg_contributions fm
         \<and> err (fst (Update ops m (FetchMsg fm))) = err m
         \<and> (err m = Some e \<longrightarrow>
              View_13x32 ops st (fst (Update ops m (FetchMsg fm))) = ''Error: '' @ e @ nl
              \<and> View_12x31 ops (fst (Update ops m (FetchMsg fm))) = ''Error: '' @ e @ nl)
         \<and> (err m = None \<longrightarrow>
              View_13x32 ops st (fst (Update ops m (FetchMsg fm)))
                = viewTable_13x32 ops st (fst (Update ops m (FetchMsg fm)))
              \<and> View_12x31 ops (fst (Update ops m (FetchMsg fm)))
                = viewTable_12x31 ops (fst (Update ops m (FetchMsg fm))))"
  using assms
  by (simp add: Update_success forwardToInput_fields View_13x32_error View_12x31_error
      View_13x32_table View_12x31_table)

text \<open>The theorem at the starting state with an error already recorded.\<close>

theorem success_installs_grid_keeps_error_witness:
  "msg_err \<lparr>msg_contributions = zeroGrid numMonths numDays, msg_err = None\<rparr> = None
   \<and> err (plainModel\<lparr>err := Some ''boom''\<rparr>) = Some ''boom''
   \<and> contributions (fst (Update plainInput (plainModel\<lparr>err := Some ''boom''\<rparr>)
        (FetchMsg \<lparr>msg_contributions = zeroGrid numMonths numDays, msg_err = None\<rparr>)))
      = zeroGrid numMonths numDays
   \<and> err (fst (Update plainInput (plainModel\<lparr>err := Some ''boom''\<rparr>)
        (FetchMsg \<lparr>msg_contributions = zeroGrid numMonths numDays, msg_err = None\<rparr>)))
      = Some ''boom''
   \<and> View_13x32 plainInput plainStyles (fst (Update plainInput (plainModel\<lparr>err := Some ''boom''\<rparr>)
        (FetchMsg \<lparr>msg_contributions = zeroGrid numMonths numDays, msg_err = None\<rparr>)))
      = ''Error: '' @ ''boom'' @ nl"
proof -
  have n: "msg_err \<lparr>msg_contributions = zeroGrid numMonths numDays, msg_err = None\<rparr> = None"
    by simp
  from success_installs_grid_keeps_error [OF n, of plainInput "plainModel\<lparr>err := Some ''boom''\<rparr>"
      "''boom''" plainStyles]
  show ?thesis by auto
qed

text \<open>
  A session: the name a is submitted and its fetch fails; the name b is submitted,
  which emits a second fetch, and that one succeeds. The array is installed, and
  the error of the first fetch is still recorded and still shown.
\<close>

theorem error_cleared_counterexample:
  "snd (Update plainInput
          (run plainInput plainModel
             [KeyMsg ''a'', KeyMsg ''enter'', FetchMsg (errMsg numMonths numDays ''boom''), KeyMsg ''b''])
          (KeyMsg ''enter''))
     = Some (FetchData ''b'')
   \<and> err (run plainInput plainModel
             [KeyMsg ''a'', KeyMsg ''enter'', FetchMsg (errMsg numMonths numDays ''boom''),
              KeyMsg ''b'', KeyMsg ''enter'',
              FetchMsg \<lparr>msg_contributions =
                          (zeroGrid numMonths numDays)
                            [0 := ((zeroGrid numMonths numDays ! 0)[25 := 4])[0 := 202305]],
                        msg_err = None\<rparr>])
     = Some ''boom''
   \<and> contributions (run plainInput plainModel
             [KeyMsg ''a'', KeyMsg ''enter'', FetchMsg (errMsg numMonths numDays ''boom''),
              KeyMsg ''b'', KeyMsg ''enter'',
              FetchMsg \<lparr>msg_contributions =
                          (zeroGrid numMonths numDays)
                            [0 := ((zeroGrid numMonths numDays ! 0)[25 := 4])[0 := 202305]],
                        msg_err = None\<rparr>])
     = (zeroGrid numMonths numDays)[0 := ((zeroGrid numMonths numDays ! 0)[25 := 4])[0 := 202305]]
   \<and> View_13x32 plainInput plainStyles (run plainInput plainModel
             [KeyMsg ''a'', KeyMsg ''enter'', FetchMsg (errMsg numMonths numDays ''boom''),
              KeyMsg ''b'', KeyMsg ''enter'',
              FetchMsg \<lparr>msg_contributions =
                          (zeroGrid numMonths numDays)
                            [0 := ((zeroGrid numMonths numDays ! 0)[25 := 4])[0 := 202305]],
                        msg_err = None\<rparr>])
     = ''Error: '' @ ''boom'' @ nl"
  by (simp add: run_def plainModel_def initialModel_13x32_def Update_def forwardToInput_def
      plainInput_simps errMsg_def View_13x32_def)

text \<open>
  C5: in every state (so in every state where a fetch is pending), a completion
  that carries an error records that error and changes nothing else: the array
  is the one the state had before, and the view is the error screen. A response
  in which some sample's date does not parse makes the command return such a
  completion.
\<close>

theorem failure_keeps_grid:
  assumes "msg_err fm = Some e"
  shows "Update ops m (FetchMsg fm) = (m\<lparr>err := Some e\<rparr>, None)
         \<and> err (fst (Update ops m (FetchMsg fm))) = Some e
         \<and> contributions (fst (Update ops m (FetchMsg fm))) = contributions m
         \<and> View_13x32 ops st (fst (Update ops m (FetchMsg fm))) = ''Error: '' @ e @ nl
         \<and> View_12x31 ops (fst (Update ops m (FetchMsg fm))) = ''Error: '' @ e @ nl
         \<and> (parser_ok parse \<and> w \<in> set weeks \<and> day \<in> set w \<and> parse (Date day) = Inl e0 \<longrightarrow>
              (\<exists>e'. fetchData_13x32 parse now (Inr weeks) = Some (errMsg numMonths numDays e')
                    \<and> msg_err (errMsg numMonths numDays e') = Some e')
              \<and> (\<exists>e'. fetchData_12x31 parse (Inr weeks) = Some (errMsg 12 31 e')
                    \<and> msg_err (errMsg 12 31 e') = Some e'))"
proof -
  have "(\<exists>e'. fetchData_13x32 parse now (Inr weeks) = Some (errMsg numMonths numDays e')
              \<and> msg_err (errMsg numMonths numDays e') = Some e')
        \<and> (\<exists>e'. fetchData_12x31 parse (Inr weeks) = Some (errMsg 12 31 e')
              \<and> msg_err (errMsg 12 31 e') = Some e')"
    if "parser_ok parse" "w \<in> set weeks" "day \<in> set w" "parse (Date day) = Inl e0"
    using fetchData_malformed [OF that(1,4,2,3), of now] by (simp add: errMsg_def)
  then show ?thesis
    using assms by (simp add: Update_failure View_13x32_error View_12x31_error)
qed

text \<open>
  The theorem at a response whose second sample has the date 2023-5-25, and at
  the completion it produces.
\<close>

theorem failure_keeps_grid_witness:
  "msg_err (errMsg numMonths numDays ''parsing time: cannot parse'') = Some ''parsing time: cannot parse''
   \<and> parser_ok parseDate
   \<and> [day_of ''2023-05-25'' 4, day_of ''2023-5-25'' 4] \<in> set [[day_of ''2023-05-25'' 4, day_of ''2023-5-25'' 4]]
   \<and> day_of ''2023-5-25'' 4 \<in> set [day_of ''2023-05-25'' 4, day_of ''2023-5-25'' 4]
   \<and> parseDate (Date (day_of ''2023-5-25'' 4)) = Inl ''parsing time: cannot parse''
   \<and> (\<exists>e'. fetchData_13x32 parseDate \<lparr>Year = 2024, Month = 5, Day = 20\<rparr>
              (Inr [[day_of ''2023-05-25'' 4, day_of ''2023-5-25'' 4]])
            = Some (errMsg numMonths numDays e'))
   \<and> Update plainInput plainModel
        (FetchMsg (errMsg numMonths numDays ''parsing time: cannot parse''))
      = (plainModel\<lparr>err := Some ''parsing time: cannot parse''\<rparr>, None)
   \<and> contributions (fst (Update plainInput plainModel
        (FetchMsg (errMsg numMonths numDays ''parsing time: cannot parse''))))
      = contributions plainModel
   \<and> View_13x32 plainInput plainStyles (fst (Update plainInput plainModel
        (FetchMsg (errMsg numMonths numDays ''parsing time: cannot parse''))))
      = ''Error: '' @ ''parsing time: cannot parse'' @ nl"
proof -
  have e: "msg_err (errMsg numMonths numDays ''parsing time: cannot parse'')
           = Some ''parsing time: cannot parse''"
    by (simp add: errMsg_def)
  have p: "parseDate (Date (day_of ''2023-5-25'' 4)) = Inl ''parsing time: cannot parse''"
    by (rule parse_day_of) (rule parse_malformed)
  have w: "[day_of ''2023-05-25'' 4, day_of ''2023-5-25'' 4]
             \<in> set [[day_of ''2023-05-25'' 4, day_of ''2023-5-25'' 4]]"
    and d: "day_of ''2023-5-25'' 4 \<in> set [day_of ''2023-05-25'' 4, day_of ''2023-5-25'' 4]"
    by simp_all
  from failure_keeps_grid [OF e, of plainInput plainModel plainStyles parseDate
      "[day_of ''2023-05-25'' 4, day_of ''2023-5-25'' 4]"
      "[[day_of ''2023-05-25'' 4, day_of ''2023-5-25'' 4]]"
      "day_of ''2023-5-25'' 4" "''parsing time: cannot parse''"
      "\<lparr>Year = 2024, Month = 5, Day = 20\<rparr>"] e p w d parser_ok_parseDate
  show ?thesis by auto
qed

text \<open>
  C7: Enter with an empty input buffer. \<open>Update\<close> skips the submit branch and
  hands the key to the text input: \<open>submittedName\<close>, the array and \<open>err\<close> are as
  before (so the view's choice of screen is too), and the command returned is
  the text input's, never a fetch and never quit. The buffer belongs to the
  text input component; it stays as it was when that component, as the
  library's does, leaves its text alone on Enter.
\<close>

theorem empty_submit_noop:
  assumes "ti_Value ops (username m) = ''''"
    and "ti_Value ops (fst (ti_Update ops (KeyMsg ''enter'') (username m))) = ti_Value ops (username m)"
  shows "submittedName (fst (Update ops m (KeyMsg ''enter''))) = submittedName m
         \<and> contributions (fst (Update ops m (KeyMsg ''enter''))) = contributions m
         \<and> err (fst (Update ops m (KeyMsg ''enter''))) = err m
         \<and> ti_Value ops (username (fst (Update ops m (KeyMsg ''enter'')))) = ti_Value ops (username m)
         \<and> snd (Update ops m (KeyMsg ''enter'')) \<noteq> Some (FetchData name)
         \<and> snd (Update ops m (KeyMsg ''enter'')) \<noteq> Some Quit
         \<and> snd (Update ops m (KeyMsg ''enter''))
             = map_option TextInputCmd (snd (ti_Update ops (KeyMsg ''enter'') (username m)))"
proof -
  have u: "Update ops m (KeyMsg ''enter'') = forwardToInput ops m (KeyMsg ''enter'')"
    using assms(1) by (simp add: Update_def)
  have "map_option TextInputCmd c \<noteq> Some (FetchData name)"
    and "map_option TextInputCmd c \<noteq> Some Quit" for c :: "'b option"
    by (cases c; simp)+
  then show ?thesis
    using assms(2) by (simp add: u forwardToInput_fields)
qed

text \<open>The theorem at the starting state, whose buffer is empty.\<close>

theorem empty_submit_noop_witness:
  "ti_Value plainInput (username plainModel) = ''''
   \<and> ti_Value plainInput (fst (ti_Update plainInput (KeyMsg ''enter'') (username plainModel)))
      = ti_Value plainInput (username plainModel)
   \<and> Update plainInput plainModel (KeyMsg ''enter'') = (plainModel, None)"
proof -
  have a: "ti_Value plainInput (username plainModel) = ''''"
    by (simp add: plainModel_def initialModel_13x32_def plainInput_simps)
  have b: "ti_Value plainInput (fst (ti_Update plainInput (KeyMsg ''enter'') (username plainModel)))
           = ti_Value plainInput (username plainModel)"
    by (simp add: plainInput_simps)
  have c: "ti_Update plainInput (KeyMsg ''enter'') (username plainModel) = (username plainModel, None)"
    by (simp add: plainInput_simps)
  from empty_submit_noop [OF a b] have "snd (Update plainInput plainModel (KeyMsg ''enter'')) = None"
    by (simp add: c)
  moreover have "fst (Update plainInput plainModel (KeyMsg ''enter'')) = plainModel"
    using a by (simp add: Update_def forwardToInput_def c)
  ultimately show ?thesis
    using a b by (simp add: prod_eq_iff)
qed

end
